theory Spec2Isabelle
  imports Main
begin

section \<open>The event envelope of hal (src/hal/event.go)\<close>

text \<open>
  Go strings are byte strings, so a string is a \<open>char list\<close> (one \<open>char\<close> per byte).
  \<open>time.Time\<close> is an instant on a linear scale. A \<open>func(string)\<close> value is an opaque
  reference: what the function does is outside the package, only the call is observed.
  \<open>interface{}\<close> values are a dynamic type tag with a value; the tags are the two pointer
  types the console broker stores, and an opaque tag for every other payload.
\<close>

type_synonym timestamp = int

type_synonym func_ref = nat

datatype dyn =
    String_ptr string
  | SlashReaction_ptr string
  | Opaque nat

text \<open>
  The \<open>hal.Broker\<close> interface is declared outside src/. From \<open>event.go\<close> the only value a
  broker is asked for is \<open>Name()\<close>; \<open>Send\<close>, \<open>SendDM\<close> and \<open>SendTable\<close> are effects and are
  recorded in the trace of the world below. A nil interface is \<open>None\<close>.
\<close>

record Broker =
  Name :: string

text \<open>
  Modelled from the spec: the \<open>Pref\<close>, \<open>Instance\<close> and \<open>Plugin\<close> type declarations are not
  under src/. \<open>event.go\<close> reads and writes the fields \<open>User\<close>, \<open>Room\<close>, \<open>Broker\<close>, \<open>Plugin\<close>,
  \<open>Value\<close> and \<open>Success\<close> of a \<open>Pref\<close>, the plugin's \<open>Name\<close> and \<open>Settings\<close>, and the fields
  \<open>Room\<close>, \<open>Key\<close> and \<open>Default\<close> of a setting. Field names carry the type's name as a prefix
  because Isabelle record fields share one name space.
\<close>

record Pref =
  Pref_User :: string
  Pref_Room :: string
  Pref_Broker :: string
  Pref_Plugin :: string
  Pref_Key :: string
  Pref_Value :: string
  Pref_Default :: string
  Pref_Success :: bool

record Setting =
  Setting_Room :: string
  Setting_Key :: string
  Setting_Default :: string

record Plugin =
  Plugin_Name :: string
  Plugin_Settings :: "Setting list"

record Instance =
  Instance_Plugin :: Plugin

text \<open>
  \<open>type Evt struct\<close>, field by field. The unexported field \<open>instance\<close> is called
  \<open>instance_meta\<close> (\<open>instance\<close> is reserved in Isabelle); a nil pointer is \<open>None\<close>.
\<close>

record Evt =
  ID :: string
  Body :: string
  Command :: string
  Subject :: string
  Room :: string
  RoomId :: string
  User :: string
  UserId :: string
  Time :: timestamp
  Broker :: "Broker option"
  IsChat :: bool
  IsBot :: bool
  ToUser :: bool
  ToRoom :: bool
  ToFunc :: bool
  ReplyFunc :: "func_ref option"
  Original :: "dyn option"
  instance_meta :: "Instance option"

subsection \<open>The world: clock, preference store, observable effects\<close>

text \<open>
  Everything \<open>event.go\<close> does beyond computing a value is an entry of the trace, in the order
  the code performs it: a call of the stored reply function, a call of a broker method,
  and a query of the preference store. The store's functions (\<open>Pref.FindKey(k).One()\<close>,
  \<open>FindPrefs\<close>, \<open>GetPref\<close>) are not under src/ and are parameters of the world.
\<close>

datatype action =
    CallReplyFunc func_ref string
  | Send Broker Evt
  | SendDM Broker Evt
  | SendTable Broker Evt "string list" "string list list"
  | QueryFindKeyOne Pref string
  | QueryFindPrefs string string string string string
  | QueryGetPref string string string string string string

record world =
  clock :: "nat \<Rightarrow> timestamp"
  ticks :: nat
  store_FindKey_One :: "Pref \<Rightarrow> string \<Rightarrow> Pref"
  store_FindPrefs :: "string \<Rightarrow> string \<Rightarrow> string \<Rightarrow> string \<Rightarrow> string \<Rightarrow> Pref list"
  store_GetPref :: "string \<Rightarrow> string \<Rightarrow> string \<Rightarrow> string \<Rightarrow> string \<Rightarrow> string \<Rightarrow> Pref"
  trace :: "action list"

datatype panic =
    NilDereference
  | IndexOutOfRange
  | Panic string

type_synonym 'a outcome = "(panic + 'a) \<times> world"

definition emit :: "action \<Rightarrow> world \<Rightarrow> world" where
  "emit a w = w\<lparr>trace := trace w @ [a]\<rparr>"

text \<open>\<open>time.Now()\<close>: the next reading of the clock.\<close>

definition time_Now :: "world \<Rightarrow> timestamp \<times> world" where
  "time_Now w = (clock w (ticks w), w\<lparr>ticks := Suc (ticks w)\<rparr>)"

text \<open>Sequencing of two steps; a panic ends the run with the world as it is.\<close>

definition and_then :: "(world \<Rightarrow> 'a outcome) \<Rightarrow> ('a \<Rightarrow> world \<Rightarrow> 'b outcome) \<Rightarrow> world \<Rightarrow> 'b outcome" where
  "and_then m f w = (case m w of (Inl p, w') \<Rightarrow> (Inl p, w') | (Inr a, w') \<Rightarrow> f a w')"

definition done_with :: "'a \<Rightarrow> world \<Rightarrow> 'a outcome" where
  "done_with a w = (Inr a, w)"

subsection \<open>Clone\<close>

text \<open>
  \<open>func (e *Evt) Clone() Evt\<close>: the composite literal names ten fields; every other field
  has its zero value.
\<close>

definition Clone :: "Evt \<Rightarrow> world \<Rightarrow> Evt \<times> world" where
  "Clone e w =
     (case time_Now w of (now, w') \<Rightarrow>
       (\<lparr> ID = ID e, Body = [], Command = [], Subject = [],
          Room = Room e, RoomId = RoomId e, User = User e, UserId = UserId e,
          Time = now, Broker = Broker e, IsChat = IsChat e, IsBot = IsBot e,
          ToUser = False, ToRoom = False, ToFunc = False, ReplyFunc = None,
          Original = Original e, instance_meta = None \<rparr>, w'))"

subsection \<open>The delivery paths\<close>

text \<open>\<open>ReplyDM\<close> calls \<open>e.Broker.SendDM\<close> with no nil check: a nil interface panics there.\<close>

definition ReplyDM :: "Evt \<Rightarrow> string \<Rightarrow> world \<Rightarrow> unit outcome" where
  "ReplyDM e msg w =
     (case Clone e w of (out, w') \<Rightarrow>
       (case Broker e of
          None \<Rightarrow> (Inl NilDereference, w')
        | Some b \<Rightarrow> (Inr (), emit (SendDM b (out\<lparr>Body := msg\<rparr>)) w')))"

definition ReplyToRoom :: "Evt \<Rightarrow> string \<Rightarrow> world \<Rightarrow> unit outcome" where
  "ReplyToRoom e msg w =
     (case Clone e w of (out, w') \<Rightarrow>
       (case Broker e of
          Some b \<Rightarrow> (Inr (), emit (Send b (out\<lparr>Body := msg\<rparr>)) w')
        | None \<Rightarrow> (Inl (Panic ''hal.Evt.Reply called with nil Broker!''), w')))"

definition ReplyTable :: "Evt \<Rightarrow> string list \<Rightarrow> string list list \<Rightarrow> world \<Rightarrow> unit outcome" where
  "ReplyTable e hdr rows w =
     (case Clone e w of (out, w') \<Rightarrow>
       (case Broker e of
          Some b \<Rightarrow> (Inr (), emit (SendTable b out hdr rows) w')
        | None \<Rightarrow> (Inl (Panic ''hal.Evt.ReplyTable called with nil Broker!''), w')))"

text \<open>\<open>BrokerName\<close>: \<open>e.Broker.Name()\<close>, a nil dereference when no broker is attached.\<close>

definition BrokerName :: "Evt \<Rightarrow> panic + string" where
  "BrokerName e = (case Broker e of None \<Rightarrow> Inl NilDereference | Some b \<Rightarrow> Inr (Name b))"

text \<open>
  \<open>AsPref\<close>: the plugin name is read only when \<open>instance\<close> is not nil; the composite literal
  then calls \<open>BrokerName\<close>. The fields it does not name are zero.
\<close>

definition AsPref :: "Evt \<Rightarrow> panic + Pref" where
  "AsPref e =
     (let plugin = (case instance_meta e of None \<Rightarrow> [] | Some i \<Rightarrow> Plugin_Name (Instance_Plugin i))
      in case BrokerName e of
           Inl p \<Rightarrow> Inl p
         | Inr broker \<Rightarrow>
             Inr \<lparr> Pref_User = UserId e, Pref_Room = RoomId e, Pref_Broker = broker,
                   Pref_Plugin = plugin, Pref_Key = [], Pref_Value = [], Pref_Default = [],
                   Pref_Success = False \<rparr>)"

subsection \<open>Reply\<close>

text \<open>Calling \<open>e.ReplyFunc(msg)\<close>: a nil function value panics.\<close>

definition call_ReplyFunc :: "Evt \<Rightarrow> string \<Rightarrow> world \<Rightarrow> unit outcome" where
  "call_ReplyFunc e msg w =
     (case ReplyFunc e of
        None \<Rightarrow> (Inl NilDereference, w)
      | Some f \<Rightarrow> (Inr (), emit (CallReplyFunc f msg) w))"

text \<open>\<open>e.AsPref().FindKey(key).One()\<close>: the query is recorded, the store answers.\<close>

definition FindKey_One :: "Evt \<Rightarrow> string \<Rightarrow> world \<Rightarrow> Pref outcome" where
  "FindKey_One e key w =
     (case AsPref e of
        Inl p \<Rightarrow> (Inl p, w)
      | Inr q \<Rightarrow> (Inr (store_FindKey_One w q key), emit (QueryFindKeyOne q key) w))"

text \<open>
  \<open>func (e *Evt) Reply(msg string)\<close>. The local \<open>delivered\<close> is threaded through the three
  \<open>if\<close> statements as in the source.
\<close>

definition Reply :: "Evt \<Rightarrow> string \<Rightarrow> world \<Rightarrow> unit outcome" where
  "Reply e msg =
     and_then (if ToFunc e then and_then (call_ReplyFunc e msg) (\<lambda>_. done_with True)
               else done_with False) (\<lambda>delivered.
     and_then (if ToRoom e then and_then (ReplyToRoom e msg) (\<lambda>_. done_with True)
               else done_with delivered) (\<lambda>delivered.
     and_then (if ToUser e then and_then (ReplyDM e msg) (\<lambda>_. done_with True)
               else done_with delivered) (\<lambda>delivered.
     if delivered then done_with ()
     else and_then (FindKey_One e ''reply-via-dm'') (\<lambda>replyVia.
          if Pref_Success replyVia \<and> Pref_Value replyVia = ''true''
          then ReplyDM e msg
          else ReplyToRoom e msg))))"

subsection \<open>Preference accessors\<close>

text \<open>\<open>e.instance.Plugin.Name\<close> without a nil check.\<close>

definition instance_Plugin :: "Evt \<Rightarrow> panic + Plugin" where
  "instance_Plugin e =
     (case instance_meta e of None \<Rightarrow> Inl NilDereference | Some i \<Rightarrow> Inr (Instance_Plugin i))"

definition FindPrefs :: "Evt \<Rightarrow> world \<Rightarrow> (Pref list) outcome" where
  "FindPrefs e w =
     (case BrokerName e of
        Inl p \<Rightarrow> (Inl p, w)
      | Inr broker \<Rightarrow>
          (case instance_Plugin e of
             Inl p \<Rightarrow> (Inl p, w)
           | Inr pl \<Rightarrow>
               (Inr (store_FindPrefs w (User e) broker (RoomId e) (Plugin_Name pl) []),
                emit (QueryFindPrefs (User e) broker (RoomId e) (Plugin_Name pl) []) w)))"

text \<open>
  The loop of \<open>InstanceSettings\<close> over \<open>e.instance.Plugin.Settings\<close>, with the slice \<open>out\<close>
  as accumulator.
\<close>

fun InstanceSettings_loop ::
  "Evt \<Rightarrow> string \<Rightarrow> string \<Rightarrow> Setting list \<Rightarrow> Pref list \<Rightarrow> world \<Rightarrow> Pref list \<times> world" where
  "InstanceSettings_loop e broker plugin [] out w = (out, w)"
| "InstanceSettings_loop e broker plugin (stg # stgs) out w =
     (if Setting_Room stg \<noteq> [] \<and> Setting_Room stg \<noteq> RoomId e
      then InstanceSettings_loop e broker plugin stgs out w
      else InstanceSettings_loop e broker plugin stgs
             (out @ [store_GetPref w [] broker (RoomId e) plugin (Setting_Key stg) (Setting_Default stg)])
             (emit (QueryGetPref [] broker (RoomId e) plugin (Setting_Key stg) (Setting_Default stg)) w))"

definition InstanceSettings :: "Evt \<Rightarrow> world \<Rightarrow> (Pref list) outcome" where
  "InstanceSettings e w =
     (case BrokerName e of
        Inl p \<Rightarrow> (Inl p, w)
      | Inr broker \<Rightarrow>
          (case instance_Plugin e of
             Inl p \<Rightarrow> (Inl p, w)
           | Inr pl \<Rightarrow>
               (case InstanceSettings_loop e broker (Plugin_Name pl) (Plugin_Settings pl) [] w of
                  (out, w') \<Rightarrow> (Inr out, w'))))"

definition ForceToRoom :: "Evt \<Rightarrow> world \<Rightarrow> Evt \<times> world" where
  "ForceToRoom e w = (case Clone e w of (out, w') \<Rightarrow> (out\<lparr>ToRoom := True\<rparr>, w'))"

definition ForceToUser :: "Evt \<Rightarrow> world \<Rightarrow> Evt \<times> world" where
  "ForceToUser e w = (case Clone e w of (out, w') \<Rightarrow> (out\<lparr>ToUser := True\<rparr>, w'))"

section \<open>The tokenizer (BodyAsArgv)\<close>

subsection \<open>The string functions of the Go library that the code calls\<close>

definition HasPrefix :: "string \<Rightarrow> string \<Rightarrow> bool" where
  "HasPrefix s p \<longleftrightarrow> length p \<le> length s \<and> take (length p) s = p"

definition HasSuffix :: "string \<Rightarrow> string \<Rightarrow> bool" where
  "HasSuffix s p \<longleftrightarrow> length p \<le> length s \<and> drop (length s - length p) s = p"

definition TrimPrefix :: "string \<Rightarrow> string \<Rightarrow> string" where
  "TrimPrefix s p = (if HasPrefix s p then drop (length p) s else s)"

definition TrimSuffix :: "string \<Rightarrow> string \<Rightarrow> string" where
  "TrimSuffix s p = (if HasSuffix s p then take (length s - length p) s else s)"

text \<open>
  \<open>strings.TrimSpace\<close> removes the leading and the trailing runes for which
  \<open>unicode.IsSpace\<close> holds. On the bytes of the string these are the UTF-8 encodings below:
  tab, line feed, vertical tab, form feed, carriage return, space, U+0085, U+00A0, U+1680,
  U+2000 to U+200A, U+2028, U+2029, U+202F, U+205F and U+3000. No encoding is a prefix of
  another, and each begins with a byte that is no continuation byte, so that decoding the
  first (the last) rune and testing it is the same as testing for one of these prefixes
  (suffixes).
\<close>

definition space_runes :: "string list" where
  "space_runes =
     [[CHR 0x09], [CHR 0x0A], [CHR 0x0B], [CHR 0x0C], [CHR 0x0D], [CHR 0x20],
      [CHR 0xC2, CHR 0x85], [CHR 0xC2, CHR 0xA0],
      [CHR 0xE1, CHR 0x9A, CHR 0x80],
      [CHR 0xE2, CHR 0x80, CHR 0x80], [CHR 0xE2, CHR 0x80, CHR 0x81],
      [CHR 0xE2, CHR 0x80, CHR 0x82], [CHR 0xE2, CHR 0x80, CHR 0x83],
      [CHR 0xE2, CHR 0x80, CHR 0x84], [CHR 0xE2, CHR 0x80, CHR 0x85],
      [CHR 0xE2, CHR 0x80, CHR 0x86], [CHR 0xE2, CHR 0x80, CHR 0x87],
      [CHR 0xE2, CHR 0x80, CHR 0x88], [CHR 0xE2, CHR 0x80, CHR 0x89],
      [CHR 0xE2, CHR 0x80, CHR 0x8A],
      [CHR 0xE2, CHR 0x80, CHR 0xA8], [CHR 0xE2, CHR 0x80, CHR 0xA9],
      [CHR 0xE2, CHR 0x80, CHR 0xAF], [CHR 0xE2, CHR 0x81, CHR 0x9F],
      [CHR 0xE3, CHR 0x80, CHR 0x80]]"

text \<open>The number of bytes of the space rune the string begins (ends) with; 0 if none.\<close>

definition leading_space :: "string \<Rightarrow> nat" where
  "leading_space s =
     (case filter (HasPrefix s) space_runes of [] \<Rightarrow> 0 | r # _ \<Rightarrow> length r)"

definition trailing_space :: "string \<Rightarrow> nat" where
  "trailing_space s =
     (case filter (HasSuffix s) space_runes of [] \<Rightarrow> 0 | r # _ \<Rightarrow> length r)"

function TrimLeftSpace :: "string \<Rightarrow> string" where
  "TrimLeftSpace s =
     (if leading_space s = 0 then s else TrimLeftSpace (drop (leading_space s) s))"
  by pat_completeness auto
termination
proof (relation "measure length")
  show "wf (measure length)" by simp
next
  fix s :: string
  assume a: "leading_space s \<noteq> 0"
  then obtain r rs where f: "filter (HasPrefix s) space_runes = r # rs"
    by (auto simp: leading_space_def split: list.splits)
  have "r \<in> set (filter (HasPrefix s) space_runes)" unfolding f by simp
  then have "HasPrefix s r" by simp
  moreover have "leading_space s = length r" by (simp add: leading_space_def f)
  ultimately have "leading_space s \<le> length s" by (simp add: HasPrefix_def)
  with a show "(drop (leading_space s) s, s) \<in> measure length" by simp
qed

function TrimRightSpace :: "string \<Rightarrow> string" where
  "TrimRightSpace s =
     (if trailing_space s = 0 then s else TrimRightSpace (take (length s - trailing_space s) s))"
  by pat_completeness auto
termination
proof (relation "measure length")
  show "wf (measure length)" by simp
next
  fix s :: string
  assume a: "trailing_space s \<noteq> 0"
  then obtain r rs where f: "filter (HasSuffix s) space_runes = r # rs"
    by (auto simp: trailing_space_def split: list.splits)
  have "r \<in> set (filter (HasSuffix s) space_runes)" unfolding f by simp
  then have "HasSuffix s r" by simp
  moreover have "trailing_space s = length r" by (simp add: trailing_space_def f)
  ultimately have "trailing_space s \<le> length s" by (simp add: HasSuffix_def)
  with a show "(take (length s - trailing_space s) s, s) \<in> measure length" by simp
qed

declare TrimLeftSpace.simps [simp del]
declare TrimRightSpace.simps [simp del]

definition TrimSpace :: "string \<Rightarrow> string" where
  "TrimSpace s = TrimRightSpace (TrimLeftSpace s)"

subsection \<open>The regular expression\<close>

text \<open>
  \<open>regexp.MustCompile(`'[^']*'|"[^"]*"|\S+`)\<close>. In Go's syntax \<open>\s\<close> is the class
  \<open>[\t\n\f\r ]\<close> (no vertical tab, no Unicode space) and \<open>\S\<close> its complement; a negated
  class matches a line feed. All bytes that the expression tests for are ASCII, so matching
  runes and matching bytes give the same matches.
\<close>

definition sq :: char where
  "sq = CHR 0x27"

definition dq :: char where
  "dq = CHR 0x22"

definition re_space :: "char \<Rightarrow> bool" where
  "re_space c \<longleftrightarrow> c = CHR 0x09 \<or> c = CHR 0x0A \<or> c = CHR 0x0C \<or> c = CHR 0x0D \<or> c = CHR 0x20"

text \<open>
  The length of the match that begins at the head of the string, if there is one. Go
  prefers the leftmost alternative that matches (leftmost-first): a quoted run wins over
  \<open>\S+\<close>, which is greedy. A quoted run ends at the next quote, since its body has none.
\<close>

fun match_at :: "string \<Rightarrow> nat option" where
  "match_at [] = None"
| "match_at (c # cs) =
     (if c = sq \<and> sq \<in> set cs then Some (Suc (Suc (length (takeWhile (\<lambda>x. x \<noteq> sq) cs))))
      else if c = dq \<and> dq \<in> set cs then Some (Suc (Suc (length (takeWhile (\<lambda>x. x \<noteq> dq) cs))))
      else if \<not> re_space c then Some (length (takeWhile (\<lambda>x. \<not> re_space x) (c # cs)))
      else None)"

text \<open>
  \<open>re.FindAllString(body, -1)\<close>: the successive leftmost matches, none overlapping. No
  match of this expression is empty, so the search goes on right after each match, and
  one byte further where nothing matches.
\<close>

function FindAllString :: "string \<Rightarrow> string list" where
  "FindAllString [] = []"
| "FindAllString (c # cs) =
     (case match_at (c # cs) of
        Some n \<Rightarrow> take n (c # cs) # FindAllString (drop n (c # cs))
      | None \<Rightarrow> FindAllString cs)"
  by pat_completeness auto
termination
proof (relation "measure length")
  show "wf (measure length)" by simp
next
  fix c :: char and cs :: string and n :: nat
  assume "match_at (c # cs) = Some n"
  then have "0 < n" by (auto split: if_splits)
  then show "(drop n (c # cs), c # cs) \<in> measure length" by simp
next
  fix c :: char and cs :: string
  show "(cs, c # cs) \<in> measure length" by simp
qed

text \<open>The body of the loop that removes the outer quotes of a match.\<close>

definition strip_quotes :: "string \<Rightarrow> string" where
  "strip_quotes val =
     (if HasPrefix val [sq] \<and> HasSuffix val [sq] then TrimSuffix (TrimPrefix val [sq]) [sq]
      else if HasPrefix val [dq] \<and> HasSuffix val [dq] then TrimSuffix (TrimPrefix val [dq]) [dq]
      else val)"

definition BodyAsArgv :: "Evt \<Rightarrow> string list" where
  "BodyAsArgv e = map strip_quotes (FindAllString (TrimSpace (Body e)))"

subsection \<open>The two kinds of match, in the words of the specification\<close>

text \<open>
  A quoted run is a quote character, a body without that character, and the same quote
  character again. A run of non-whitespace is a non-empty string with no byte of the
  class \<open>\s\<close>.
\<close>

definition quoted_run :: "char \<Rightarrow> string \<Rightarrow> string \<Rightarrow> bool" where
  "quoted_run q body m \<longleftrightarrow> m = q # body @ [q] \<and> q \<notin> set body"

definition space_free_run :: "string \<Rightarrow> bool" where
  "space_free_run m \<longleftrightarrow> m \<noteq> [] \<and> list_all (\<lambda>c. \<not> re_space c) m"

section \<open>The console broker (package console)\<close>

text \<open>
  \<open>type Broker struct\<close> of the console package; its channels are the queues of the
  process and are not fields here. As a \<open>hal.Broker\<close> its \<open>Name()\<close> is the room.
\<close>

record console_Broker =
  cb_User :: string
  cb_Room :: string

definition console_Name :: "console_Broker \<Rightarrow> string" where
  "console_Name cb = cb_Room cb"

definition as_Broker :: "console_Broker \<Rightarrow> Broker" where
  "as_Broker cb = \<lparr> Name = console_Name cb \<rparr>"

text \<open>
  The composite literal \<open>hal.Evt{...}\<close> that \<open>Stream\<close> builds for a line, \<open>now\<close> being the
  reading of \<open>time.Now()\<close>. \<open>Original\<close> is \<open>&input\<close>, a pointer to a string.
\<close>

definition console_Evt :: "console_Broker \<Rightarrow> string \<Rightarrow> timestamp \<Rightarrow> Evt" where
  "console_Evt cb input now =
     \<lparr> ID = [], Body = input, Command = [], Subject = [],
       Room = cb_Room cb, RoomId = cb_Room cb, User = cb_User cb, UserId = cb_User cb,
       Time = now, Broker = Some (as_Broker cb), IsChat = False, IsBot = False,
       ToUser = False, ToRoom = False, ToFunc = False, ReplyFunc = None,
       Original = Some (String_ptr input), instance_meta = None \<rparr>"

text \<open>
  One turn of the loop of \<open>Stream\<close>, for the line \<open>input\<close> taken from \<open>cb.Stdin\<close>. The result
  is the list of events sent on the channel \<open>out\<close> in this turn, and the local \<open>e\<close> as it
  is at the end of the turn. \<open>args[0]\<close> panics on an empty slice. The \<open>switch\<close> has one case
  and no default.
\<close>

definition Stream_step :: "console_Broker \<Rightarrow> string \<Rightarrow> world \<Rightarrow> (Evt list \<times> Evt) outcome" where
  "Stream_step cb input w =
     (case time_Now w of (now, w1) \<Rightarrow>
       (let e = console_Evt cb input now
        in if HasPrefix (Body e) ''/''
           then (let args = BodyAsArgv e
                 in case args of
                      [] \<Rightarrow> (Inl IndexOutOfRange, w1)
                    | arg0 # _ \<Rightarrow>
                        if arg0 = ''/reaction''
                        then if length args = 2
                             then (Inr ([], e\<lparr>Body := args ! 1,
                                             Original := Some (SlashReaction_ptr (args ! 1))\<rparr>), w1)
                             else and_then (Reply e ''/reaction requires exactly one argument!'')
                                    (\<lambda>_. done_with ([], e)) w1
                        else (Inr ([], e), w1))
           else (Inr ([e], e), w1)))"

text \<open>
  The loop itself, over the lines queued on \<open>cb.Stdin\<close>; it collects what was sent on
  \<open>out\<close>. (The Go loop then blocks on the empty channel.)
\<close>

fun Stream :: "console_Broker \<Rightarrow> string list \<Rightarrow> world \<Rightarrow> (Evt list) outcome" where
  "Stream cb [] w = (Inr [], w)"
| "Stream cb (input # inputs) w =
     (case Stream_step cb input w of
        (Inl p, w') \<Rightarrow> (Inl p, w')
      | (Inr (sent, _), w') \<Rightarrow>
          (case Stream cb inputs w' of
             (Inl p, w'') \<Rightarrow> (Inl p, w'')
           | (Inr later, w'') \<Rightarrow> (Inr (sent @ later), w'')))"

section \<open>Observing a run\<close>

text \<open>The actions a run from \<open>w\<close> to \<open>w'\<close> has added to the trace.\<close>

definition new_actions :: "world \<Rightarrow> world \<Rightarrow> action list" where
  "new_actions w w' = drop (length (trace w)) (trace w')"

text \<open>The envelope an action hands to a broker, if it is a broker call.\<close>

fun sent_event :: "action \<Rightarrow> Evt option" where
  "sent_event (Send b ev) = Some ev"
| "sent_event (SendDM b ev) = Some ev"
| "sent_event (SendTable b ev hdr rows) = Some ev"
| "sent_event (CallReplyFunc f m) = None"
| "sent_event (QueryFindKeyOne q k) = None"
| "sent_event (QueryFindPrefs u b r p k) = None"
| "sent_event (QueryGetPref u b r p k d) = None"

definition outbound_events :: "world \<Rightarrow> world \<Rightarrow> Evt list" where
  "outbound_events w w' = List.map_filter sent_event (new_actions w w')"

fun is_store_query :: "action \<Rightarrow> bool" where
  "is_store_query (QueryFindKeyOne q k) = True"
| "is_store_query (QueryFindPrefs u b r p k) = True"
| "is_store_query (QueryGetPref u b r p k d) = True"
| "is_store_query (Send b ev) = False"
| "is_store_query (SendDM b ev) = False"
| "is_store_query (SendTable b ev hdr rows) = False"
| "is_store_query (CallReplyFunc f m) = False"

text \<open>An envelope carries no forcing state.\<close>

definition no_forcing :: "Evt \<Rightarrow> bool" where
  "no_forcing ev \<longleftrightarrow> \<not> ToFunc ev \<and> \<not> ToRoom ev \<and> \<not> ToUser ev \<and> ReplyFunc ev = None"

subsection \<open>A concrete world and concrete envelopes\<close>

text \<open>
  A store that holds one row, \<open>reply-via-dm = true\<close> for user \<open>U2\<close>, and answers every
  other lookup with an unsuccessful row; a clock that starts at 1000.
\<close>

definition demo_world :: world where
  "demo_world =
     \<lparr> clock = (\<lambda>n. 1000 + int n), ticks = 0,
       store_FindKey_One = (\<lambda>q k. q\<lparr>Pref_Key := k,
           Pref_Value := (if Pref_User q = ''U2'' \<and> k = ''reply-via-dm'' then ''true'' else []),
           Pref_Success := (Pref_User q = ''U2'' \<and> k = ''reply-via-dm'')\<rparr>),
       store_FindPrefs = (\<lambda>u b r p k. []),
       store_GetPref = (\<lambda>u b r p k d.
           \<lparr> Pref_User = u, Pref_Room = r, Pref_Broker = b, Pref_Plugin = p, Pref_Key = k,
             Pref_Value = d, Pref_Default = d, Pref_Success = True \<rparr>),
       trace = [] \<rparr>"

definition demo_Plugin :: Plugin where
  "demo_Plugin =
     \<lparr> Plugin_Name = ''uptime'',
       Plugin_Settings =
         [\<lparr> Setting_Room = [], Setting_Key = ''interval'', Setting_Default = ''5'' \<rparr>,
          \<lparr> Setting_Room = ''ops'', Setting_Key = ''verbose'', Setting_Default = ''no'' \<rparr>,
          \<lparr> Setting_Room = ''C1'', Setting_Key = ''color'', Setting_Default = ''red'' \<rparr>] \<rparr>"

definition demo_Evt :: Evt where
  "demo_Evt =
     \<lparr> ID = ''42'', Body = ''!uptime'', Command = ''uptime'', Subject = ''s'',
       Room = ''general'', RoomId = ''C1'', User = ''alice'', UserId = ''U1'',
       Time = 900, Broker = Some \<lparr> Name = ''slack'' \<rparr>, IsChat = True, IsBot = False,
       ToUser = False, ToRoom = False, ToFunc = False, ReplyFunc = Some 7,
       Original = Some (Opaque 3),
       instance_meta = Some \<lparr> Instance_Plugin = demo_Plugin \<rparr> \<rparr>"

definition demo_forced :: Evt where
  "demo_forced = demo_Evt\<lparr>ToUser := True, ToRoom := True, ToFunc := True\<rparr>"

definition demo_unattached :: Evt where
  "demo_unattached = demo_Evt\<lparr>Broker := None\<rparr>"

definition demo_console :: console_Broker where
  "demo_console = \<lparr> cb_User = ''testuser'', cb_Room = ''console'' \<rparr>"

section \<open>Properties\<close>

subsection \<open>Helper facts about Clone and the trace\<close>

lemma Clone_fields:
  "(fst (Clone e w)) =
       \<lparr> ID = ID e, Body = [], Command = [], Subject = [],
          Room = Room e, RoomId = RoomId e, User = User e, UserId = UserId e,
          Time = clock w (ticks w), Broker = Broker e, IsChat = IsChat e, IsBot = IsBot e,
          ToUser = False, ToRoom = False, ToFunc = False, ReplyFunc = None,
          Original = Original e, instance_meta = None \<rparr>"
  "snd (Clone e w) = w\<lparr>ticks := Suc (ticks w)\<rparr>"
  by (simp_all add: Clone_def time_Now_def)

lemma new_actions_emit: "new_actions w (emit a (w\<lparr>ticks := n\<rparr>)) = [a]"
  by (simp add: new_actions_def emit_def)

lemma new_actions_same: "new_actions w (w\<lparr>ticks := n\<rparr>) = []"
  by (simp add: new_actions_def)

subsection \<open>Clone\<close>

text \<open>
  Claim C2. \<open>Clone\<close> is documented to return an envelope whose \<open>Body\<close>, \<open>Command\<close>,
  \<open>Subject\<close> and \<open>Original\<close> are empty. The composite literal copies \<open>Original\<close>: body,
  command and subject of the clone are empty, but the original payload of every envelope
  is carried over unchanged, so a payload that is set is never purged.
\<close>

theorem Clone_retains_Original:
  "Body (fst (Clone e w)) = [] \<and> Command (fst (Clone e w)) = [] \<and> Subject (fst (Clone e w)) = []
   \<and> Time (fst (Clone e w)) = clock w (ticks w)
   \<and> Original (fst (Clone e w)) = Original e
   \<and> Original (fst (Clone (e\<lparr>Original := Some p\<rparr>) w)) = Some p"
  by (simp add: Clone_def time_Now_def)

text \<open>
  Claim C9. Whatever the three delivery flags and the reply function of an envelope are,
  its clone has all three flags false and no reply function; hence every envelope that
  \<open>ReplyDM\<close>, \<open>ReplyToRoom\<close> and \<open>ReplyTable\<close> hand to a broker carries no forcing state.
\<close>

theorem reply_paths_no_forcing:
  "no_forcing (fst (Clone e w))
   \<and> (\<forall>ev \<in> set (outbound_events w (snd (ReplyDM e msg w))). no_forcing ev)
   \<and> (\<forall>ev \<in> set (outbound_events w (snd (ReplyToRoom e msg w))). no_forcing ev)
   \<and> (\<forall>ev \<in> set (outbound_events w (snd (ReplyTable e hdr rows w))). no_forcing ev)"
proof -
  have c: "no_forcing (fst (Clone e w))"
    by (simp add: no_forcing_def Clone_def time_Now_def)
  have b: "no_forcing ((fst (Clone e w))\<lparr>Body := msg\<rparr>)"
    by (simp add: no_forcing_def Clone_def time_Now_def)
  have dm: "\<forall>ev \<in> set (outbound_events w (snd (ReplyDM e msg w))). no_forcing ev"
  proof (cases "Broker e")
    case None
    then show ?thesis
      by (simp add: ReplyDM_def outbound_events_def split_beta Clone_fields new_actions_same
            List.map_filter_simps)
  next
    case (Some br)
    with b show ?thesis
      by (simp add: ReplyDM_def outbound_events_def split_beta Clone_fields new_actions_emit
            List.map_filter_simps)
  qed
  have room: "\<forall>ev \<in> set (outbound_events w (snd (ReplyToRoom e msg w))). no_forcing ev"
  proof (cases "Broker e")
    case None
    then show ?thesis
      by (simp add: ReplyToRoom_def outbound_events_def split_beta Clone_fields new_actions_same
            List.map_filter_simps)
  next
    case (Some br)
    with b show ?thesis
      by (simp add: ReplyToRoom_def outbound_events_def split_beta Clone_fields new_actions_emit
            List.map_filter_simps)
  qed
  have tbl: "\<forall>ev \<in> set (outbound_events w (snd (ReplyTable e hdr rows w))). no_forcing ev"
  proof (cases "Broker e")
    case None
    then show ?thesis
      by (simp add: ReplyTable_def outbound_events_def split_beta Clone_fields new_actions_same
            List.map_filter_simps)
  next
    case (Some br)
    with c show ?thesis
      by (simp add: ReplyTable_def outbound_events_def split_beta Clone_fields new_actions_emit
            List.map_filter_simps)
  qed
  from c dm room tbl show ?thesis by blast
qed

theorem reply_paths_no_forcing_witness:
  "\<exists>ev. outbound_events demo_world (snd (ReplyDM demo_forced ''hi'' demo_world)) = [ev]
        \<and> ToFunc demo_forced \<and> ToRoom demo_forced \<and> ToUser demo_forced
        \<and> ReplyFunc demo_forced = Some 7 \<and> no_forcing ev"
proof -
  obtain ev where l: "outbound_events demo_world (snd (ReplyDM demo_forced ''hi'' demo_world)) = [ev]"
    by (simp add: ReplyDM_def outbound_events_def split_beta Clone_fields new_actions_emit
          List.map_filter_simps demo_forced_def demo_Evt_def)
  have "\<forall>x \<in> set (outbound_events demo_world (snd (ReplyDM demo_forced ''hi'' demo_world))). no_forcing x"
    using reply_paths_no_forcing [of demo_forced demo_world "''hi''"] by blast
  with l have "no_forcing ev" by simp
  moreover have "ToFunc demo_forced \<and> ToRoom demo_forced \<and> ToUser demo_forced
        \<and> ReplyFunc demo_forced = Some 7"
    by (simp add: demo_forced_def demo_Evt_def)
  ultimately show ?thesis using l by blast
qed

subsection \<open>The delivery paths\<close>

text \<open>
  Claim C5. With no broker attached, the room path and the direct-message path both end
  in a panic and nothing is sent. With a broker \<open>b\<close> attached, the room path clones the
  envelope, sets the body of the clone to the message and passes it to \<open>b.Send\<close>; the
  direct-message path does the same with \<open>b.SendDM\<close>.
\<close>

theorem delivery_paths:
  "(Broker e = None \<longrightarrow>
      fst (ReplyToRoom e msg w) = Inl (Panic ''hal.Evt.Reply called with nil Broker!'')
      \<and> new_actions w (snd (ReplyToRoom e msg w)) = []
      \<and> fst (ReplyDM e msg w) = Inl NilDereference
      \<and> new_actions w (snd (ReplyDM e msg w)) = [])
   \<and> (Broker e = Some b \<longrightarrow>
      fst (ReplyToRoom e msg w) = Inr ()
      \<and> new_actions w (snd (ReplyToRoom e msg w)) = [Send b ((fst (Clone e w))\<lparr>Body := msg\<rparr>)]
      \<and> fst (ReplyDM e msg w) = Inr ()
      \<and> new_actions w (snd (ReplyDM e msg w)) = [SendDM b ((fst (Clone e w))\<lparr>Body := msg\<rparr>)])"
  by (simp add: ReplyToRoom_def ReplyDM_def split_beta Clone_fields new_actions_emit new_actions_same)

theorem delivery_paths_witness:
  "Broker demo_unattached = None
   \<and> fst (ReplyToRoom demo_unattached ''hi'' demo_world) = Inl (Panic ''hal.Evt.Reply called with nil Broker!'')
   \<and> fst (ReplyDM demo_unattached ''hi'' demo_world) = Inl NilDereference
   \<and> Broker demo_Evt = Some \<lparr>Name = ''slack''\<rparr>
   \<and> new_actions demo_world (snd (ReplyToRoom demo_Evt ''hi'' demo_world))
       = [Send \<lparr>Name = ''slack''\<rparr> ((fst (Clone demo_Evt demo_world))\<lparr>Body := ''hi''\<rparr>)]
   \<and> new_actions demo_world (snd (ReplyDM demo_Evt ''hi'' demo_world))
       = [SendDM \<lparr>Name = ''slack''\<rparr> ((fst (Clone demo_Evt demo_world))\<lparr>Body := ''hi''\<rparr>)]
   \<and> Body ((fst (Clone demo_Evt demo_world))\<lparr>Body := ''hi''\<rparr>) = ''hi''"
proof -
  have n: "Broker demo_unattached = None" by (simp add: demo_unattached_def)
  have s: "Broker demo_Evt = Some \<lparr>Name = ''slack''\<rparr>" by (simp add: demo_Evt_def)
  from n s
    delivery_paths [where e = demo_unattached and msg = "''hi''" and w = demo_world]
    delivery_paths [where e = demo_Evt and msg = "''hi''" and w = demo_world
      and b = "\<lparr>Name = ''slack''\<rparr>"]
  show ?thesis by simp
qed

subsection \<open>AsPref\<close>

text \<open>
  Claim C8. With a broker attached, \<open>AsPref\<close> returns (it does not panic) a preference key
  with the envelope's user id, room id and the broker's name; its plugin is the attached
  plugin's name when instance metadata is present and the empty string when it is absent.
\<close>

theorem AsPref_fields:
  assumes "Broker e = Some b"
  shows "\<exists>p. AsPref e = Inr p
           \<and> Pref_User p = UserId e \<and> Pref_Room p = RoomId e \<and> Pref_Broker p = Name b
           \<and> (instance_meta e = None \<longrightarrow> Pref_Plugin p = [])
           \<and> (\<forall>i. instance_meta e = Some i \<longrightarrow> Pref_Plugin p = Plugin_Name (Instance_Plugin i))"
  using assms by (simp add: AsPref_def BrokerName_def)

theorem AsPref_fields_witness:
  "\<exists>p q. AsPref demo_Evt = Inr p \<and> Pref_User p = ''U1'' \<and> Pref_Room p = ''C1''
        \<and> Pref_Broker p = ''slack'' \<and> Pref_Plugin p = ''uptime''
        \<and> AsPref (demo_Evt\<lparr>instance_meta := None\<rparr>) = Inr q \<and> Pref_Plugin q = []
        \<and> Pref_User q = ''U1'' \<and> Pref_Room q = ''C1'' \<and> Pref_Broker q = ''slack''"
proof -
  have b1: "Broker demo_Evt = Some \<lparr>Name = ''slack''\<rparr>" by (simp add: demo_Evt_def)
  have b2: "Broker (demo_Evt\<lparr>instance_meta := None\<rparr>) = Some \<lparr>Name = ''slack''\<rparr>"
    by (simp add: demo_Evt_def)
  from AsPref_fields [OF b1] AsPref_fields [OF b2] show ?thesis
    by (auto simp: demo_Evt_def demo_Plugin_def)
qed

subsection \<open>Reply\<close>

lemmas run_defs = Reply_def and_then_def done_with_def call_ReplyFunc_def ReplyToRoom_def
  ReplyDM_def FindKey_One_def AsPref_def BrokerName_def Clone_def time_Now_def emit_def
  new_actions_def split_beta

text \<open>
  Claim C3, as stated for every envelope, fails where no broker is attached: with only the
  force-to-room flag set, and likewise with force-to-room and force-to-user both set,
  \<open>Reply\<close> ends in the panic of the room path and nothing is sent. It also fails where
  force-to-function is set and no function is stored: with a broker attached and all
  three flags set, \<open>Reply\<close> panics on the call of the nil function, before any send, so
  that no function is invoked and there are no two sends.
\<close>

theorem Reply_forced_unattached:
  "ToRoom (demo_unattached\<lparr>ToRoom := True\<rparr>) \<and> \<not> ToUser (demo_unattached\<lparr>ToRoom := True\<rparr>)
   \<and> \<not> ToFunc (demo_unattached\<lparr>ToRoom := True\<rparr>)
   \<and> fst (Reply (demo_unattached\<lparr>ToRoom := True\<rparr>) ''hi'' demo_world)
        = Inl (Panic ''hal.Evt.Reply called with nil Broker!'')
   \<and> new_actions demo_world (snd (Reply (demo_unattached\<lparr>ToRoom := True\<rparr>) ''hi'' demo_world)) = []
   \<and> fst (Reply (demo_unattached\<lparr>ToRoom := True, ToUser := True\<rparr>) ''hi'' demo_world)
        = Inl (Panic ''hal.Evt.Reply called with nil Broker!'')
   \<and> new_actions demo_world
        (snd (Reply (demo_unattached\<lparr>ToRoom := True, ToUser := True\<rparr>) ''hi'' demo_world)) = []
   \<and> Broker (demo_forced\<lparr>ReplyFunc := None\<rparr>) = Some \<lparr>Name = ''slack''\<rparr>
   \<and> ToFunc (demo_forced\<lparr>ReplyFunc := None\<rparr>) \<and> ToRoom (demo_forced\<lparr>ReplyFunc := None\<rparr>)
   \<and> ToUser (demo_forced\<lparr>ReplyFunc := None\<rparr>)
   \<and> fst (Reply (demo_forced\<lparr>ReplyFunc := None\<rparr>) ''hi'' demo_world) = Inl NilDereference
   \<and> new_actions demo_world (snd (Reply (demo_forced\<lparr>ReplyFunc := None\<rparr>) ''hi'' demo_world)) = []"
  by (simp add: run_defs demo_unattached_def demo_forced_def demo_Evt_def)

text \<open>
  Claim C3, amended. (1) With force-to-function set and a function stored, \<open>Reply\<close> first
  calls that function with the message, whatever the other two flags, the broker and the
  preference store are, and whatever else it then does is a broker delivery. (2) With a
  broker attached and only force-to-room set, \<open>Reply\<close> returns after exactly one action,
  the send of the clone with the message as body to the room. (3) With a broker attached
  and both force-to-room and force-to-user set (and a function stored if
  force-to-function is set too), the broker deliveries are exactly two: the room send and
  then the direct-message send, each of a clone with the message as body. (4) Whenever
  one of the three flags is set, \<open>Reply\<close> makes no query of the preference store.
\<close>

theorem Reply_forced:
  "(ToFunc e \<and> ReplyFunc e = Some f \<longrightarrow>
      (\<exists>rest. new_actions w (snd (Reply e msg w)) = CallReplyFunc f msg # rest
             \<and> list_all (\<lambda>a. sent_event a \<noteq> None) rest))
   \<and> (Broker e = Some b \<and> \<not> ToFunc e \<and> ToRoom e \<and> \<not> ToUser e \<longrightarrow>
        fst (Reply e msg w) = Inr ()
        \<and> new_actions w (snd (Reply e msg w)) = [Send b ((fst (Clone e w))\<lparr>Body := msg\<rparr>)])
   \<and> (Broker e = Some b \<and> ToRoom e \<and> ToUser e \<and> (ToFunc e \<longrightarrow> ReplyFunc e \<noteq> None) \<longrightarrow>
        fst (Reply e msg w) = Inr ()
        \<and> filter (\<lambda>a. sent_event a \<noteq> None) (new_actions w (snd (Reply e msg w))) =
            [Send b ((fst (Clone e w))\<lparr>Body := msg\<rparr>),
             SendDM b ((fst (Clone e (snd (Clone e w))))\<lparr>Body := msg\<rparr>)])
   \<and> (ToFunc e \<or> ToRoom e \<or> ToUser e \<longrightarrow>
        filter is_store_query (new_actions w (snd (Reply e msg w))) = [])"
proof -
  have p1: "ToFunc e \<and> ReplyFunc e = Some f \<longrightarrow>
      (\<exists>rest. new_actions w (snd (Reply e msg w)) = CallReplyFunc f msg # rest
             \<and> list_all (\<lambda>a. sent_event a \<noteq> None) rest)"
    by (cases "Broker e"; cases "ToRoom e"; cases "ToUser e") (simp_all add: run_defs)
  have p2: "Broker e = Some b \<and> \<not> ToFunc e \<and> ToRoom e \<and> \<not> ToUser e \<longrightarrow>
        fst (Reply e msg w) = Inr ()
        \<and> new_actions w (snd (Reply e msg w)) = [Send b ((fst (Clone e w))\<lparr>Body := msg\<rparr>)]"
    by (simp add: run_defs)
  have p3: "Broker e = Some b \<and> ToRoom e \<and> ToUser e \<and> (ToFunc e \<longrightarrow> ReplyFunc e \<noteq> None) \<longrightarrow>
        fst (Reply e msg w) = Inr ()
        \<and> filter (\<lambda>a. sent_event a \<noteq> None) (new_actions w (snd (Reply e msg w))) =
            [Send b ((fst (Clone e w))\<lparr>Body := msg\<rparr>),
             SendDM b ((fst (Clone e (snd (Clone e w))))\<lparr>Body := msg\<rparr>)]"
    by (cases "ToFunc e"; cases "ReplyFunc e") (simp_all add: run_defs)
  have p4: "ToFunc e \<or> ToRoom e \<or> ToUser e \<longrightarrow>
        filter is_store_query (new_actions w (snd (Reply e msg w))) = []"
    by (cases "Broker e"; cases "ReplyFunc e"; cases "ToFunc e"; cases "ToRoom e"; cases "ToUser e")
       (simp_all add: run_defs)
  from p1 p2 p3 p4 show ?thesis by blast
qed

theorem Reply_forced_witness:
  "ToFunc demo_forced \<and> ToRoom demo_forced \<and> ToUser demo_forced
   \<and> ReplyFunc demo_forced = Some 7 \<and> Broker demo_forced = Some \<lparr>Name = ''slack''\<rparr>
   \<and> (\<exists>rest. new_actions demo_world (snd (Reply demo_forced ''hi'' demo_world))
               = CallReplyFunc 7 ''hi'' # rest)
   \<and> fst (Reply demo_forced ''hi'' demo_world) = Inr ()
   \<and> filter (\<lambda>a. sent_event a \<noteq> None) (new_actions demo_world (snd (Reply demo_forced ''hi'' demo_world)))
       = [Send \<lparr>Name = ''slack''\<rparr> ((fst (Clone demo_forced demo_world))\<lparr>Body := ''hi''\<rparr>),
          SendDM \<lparr>Name = ''slack''\<rparr>
            ((fst (Clone demo_forced (snd (Clone demo_forced demo_world))))\<lparr>Body := ''hi''\<rparr>)]
   \<and> filter is_store_query (new_actions demo_world (snd (Reply demo_forced ''hi'' demo_world))) = []
   \<and> new_actions demo_world (snd (Reply (demo_Evt\<lparr>ToRoom := True\<rparr>) ''hi'' demo_world))
       = [Send \<lparr>Name = ''slack''\<rparr> ((fst (Clone (demo_Evt\<lparr>ToRoom := True\<rparr>) demo_world))\<lparr>Body := ''hi''\<rparr>)]"
proof -
  have f: "ToFunc demo_forced" "ToRoom demo_forced" "ToUser demo_forced"
    "ReplyFunc demo_forced = Some 7" "Broker demo_forced = Some \<lparr>Name = ''slack''\<rparr>"
    by (simp_all add: demo_forced_def demo_Evt_def)
  have r: "Broker (demo_Evt\<lparr>ToRoom := True\<rparr>) = Some \<lparr>Name = ''slack''\<rparr>"
    "\<not> ToFunc (demo_Evt\<lparr>ToRoom := True\<rparr>)" "ToRoom (demo_Evt\<lparr>ToRoom := True\<rparr>)"
    "\<not> ToUser (demo_Evt\<lparr>ToRoom := True\<rparr>)"
    by (simp_all add: demo_Evt_def)
  from f
    Reply_forced [where e = demo_forced and f = 7 and b = "\<lparr>Name = ''slack''\<rparr>"
      and msg = "''hi''" and w = demo_world]
  have a: "(\<exists>rest. new_actions demo_world (snd (Reply demo_forced ''hi'' demo_world))
               = CallReplyFunc 7 ''hi'' # rest)
   \<and> fst (Reply demo_forced ''hi'' demo_world) = Inr ()
   \<and> filter (\<lambda>a. sent_event a \<noteq> None) (new_actions demo_world (snd (Reply demo_forced ''hi'' demo_world)))
       = [Send \<lparr>Name = ''slack''\<rparr> ((fst (Clone demo_forced demo_world))\<lparr>Body := ''hi''\<rparr>),
          SendDM \<lparr>Name = ''slack''\<rparr>
            ((fst (Clone demo_forced (snd (Clone demo_forced demo_world))))\<lparr>Body := ''hi''\<rparr>)]
   \<and> filter is_store_query (new_actions demo_world (snd (Reply demo_forced ''hi'' demo_world))) = []"
    by auto
  from r
    Reply_forced [where e = "demo_Evt\<lparr>ToRoom := True\<rparr>" and b = "\<lparr>Name = ''slack''\<rparr>"
      and msg = "''hi''" and w = demo_world]
  have b: "new_actions demo_world (snd (Reply (demo_Evt\<lparr>ToRoom := True\<rparr>) ''hi'' demo_world))
       = [Send \<lparr>Name = ''slack''\<rparr> ((fst (Clone (demo_Evt\<lparr>ToRoom := True\<rparr>) demo_world))\<lparr>Body := ''hi''\<rparr>)]"
    by simp
  from f a b show ?thesis by simp
qed

text \<open>
  Claim C4, as stated for every envelope with none of the three flags set, fails where no
  broker is attached: \<open>AsPref\<close> dereferences the nil broker, so \<open>Reply\<close> panics before it
  queries the store and delivers nothing.
\<close>

theorem Reply_by_preference_unattached:
  "\<not> ToFunc demo_unattached \<and> \<not> ToRoom demo_unattached \<and> \<not> ToUser demo_unattached
   \<and> fst (Reply demo_unattached ''hi'' demo_world) = Inl NilDereference
   \<and> new_actions demo_world (snd (Reply demo_unattached ''hi'' demo_world)) = []"
  by (simp add: run_defs demo_unattached_def demo_Evt_def)

text \<open>
  Claim C4, amended. For every envelope with a broker attached and none of the three
  flags set, \<open>Reply\<close> returns after exactly two actions: the lookup of \<open>reply-via-dm\<close> under
  the key of \<open>AsPref\<close> (user id, room id, broker name, plugin name), and then one
  delivery of the clone with the message as body, by \<open>SendDM\<close> when the lookup succeeded
  with the value \<open>true\<close> and by \<open>Send\<close> in every other case.
\<close>

theorem Reply_by_preference:
  assumes "Broker e = Some b" and "\<not> ToFunc e" and "\<not> ToRoom e" and "\<not> ToUser e"
  shows "\<exists>q. AsPref e = Inr q
           \<and> Pref_User q = UserId e \<and> Pref_Room q = RoomId e \<and> Pref_Broker q = Name b
           \<and> Pref_Plugin q = (case instance_meta e of None \<Rightarrow> []
                               | Some i \<Rightarrow> Plugin_Name (Instance_Plugin i))
           \<and> fst (Reply e msg w) = Inr ()
           \<and> new_actions w (snd (Reply e msg w)) =
               [QueryFindKeyOne q ''reply-via-dm'',
                if Pref_Success (store_FindKey_One w q ''reply-via-dm'')
                   \<and> Pref_Value (store_FindKey_One w q ''reply-via-dm'') = ''true''
                then SendDM b ((fst (Clone e w))\<lparr>Body := msg\<rparr>)
                else Send b ((fst (Clone e w))\<lparr>Body := msg\<rparr>)]"
  using assms by (simp add: run_defs)

theorem Reply_by_preference_witness:
  "fst (Reply demo_Evt ''hi'' demo_world) = Inr ()
   \<and> (\<exists>q. UserId demo_Evt = ''U1'' \<and> Pref_User q = ''U1''
        \<and> new_actions demo_world (snd (Reply demo_Evt ''hi'' demo_world)) =
            [QueryFindKeyOne q ''reply-via-dm'',
             Send \<lparr>Name = ''slack''\<rparr> ((fst (Clone demo_Evt demo_world))\<lparr>Body := ''hi''\<rparr>)])
   \<and> (\<exists>q. Pref_User q = ''U2''
        \<and> new_actions demo_world (snd (Reply (demo_Evt\<lparr>UserId := ''U2''\<rparr>) ''hi'' demo_world)) =
            [QueryFindKeyOne q ''reply-via-dm'',
             SendDM \<lparr>Name = ''slack''\<rparr>
               ((fst (Clone (demo_Evt\<lparr>UserId := ''U2''\<rparr>) demo_world))\<lparr>Body := ''hi''\<rparr>)])"
proof -
  have h1: "Broker demo_Evt = Some \<lparr>Name = ''slack''\<rparr>" "\<not> ToFunc demo_Evt"
    "\<not> ToRoom demo_Evt" "\<not> ToUser demo_Evt"
    by (simp_all add: demo_Evt_def)
  have h2: "Broker (demo_Evt\<lparr>UserId := ''U2''\<rparr>) = Some \<lparr>Name = ''slack''\<rparr>"
    "\<not> ToFunc (demo_Evt\<lparr>UserId := ''U2''\<rparr>)"
    "\<not> ToRoom (demo_Evt\<lparr>UserId := ''U2''\<rparr>)" "\<not> ToUser (demo_Evt\<lparr>UserId := ''U2''\<rparr>)"
    by (simp_all add: demo_Evt_def)
  have u: "UserId demo_Evt = ''U1''" by (simp add: demo_Evt_def)
  from Reply_by_preference [OF h1, of "''hi''" demo_world]
  obtain q1 where q1: "Pref_User q1 = UserId demo_Evt"
    "fst (Reply demo_Evt ''hi'' demo_world) = Inr ()"
    "new_actions demo_world (snd (Reply demo_Evt ''hi'' demo_world)) =
               [QueryFindKeyOne q1 ''reply-via-dm'',
                if Pref_Success (store_FindKey_One demo_world q1 ''reply-via-dm'')
                   \<and> Pref_Value (store_FindKey_One demo_world q1 ''reply-via-dm'') = ''true''
                then SendDM \<lparr>Name = ''slack''\<rparr> ((fst (Clone demo_Evt demo_world))\<lparr>Body := ''hi''\<rparr>)
                else Send \<lparr>Name = ''slack''\<rparr> ((fst (Clone demo_Evt demo_world))\<lparr>Body := ''hi''\<rparr>)]"
    by auto
  from Reply_by_preference [OF h2, of "''hi''" demo_world]
  obtain q2 where q2: "Pref_User q2 = UserId (demo_Evt\<lparr>UserId := ''U2''\<rparr>)"
    "new_actions demo_world (snd (Reply (demo_Evt\<lparr>UserId := ''U2''\<rparr>) ''hi'' demo_world)) =
               [QueryFindKeyOne q2 ''reply-via-dm'',
                if Pref_Success (store_FindKey_One demo_world q2 ''reply-via-dm'')
                   \<and> Pref_Value (store_FindKey_One demo_world q2 ''reply-via-dm'') = ''true''
                then SendDM \<lparr>Name = ''slack''\<rparr>
                   ((fst (Clone (demo_Evt\<lparr>UserId := ''U2''\<rparr>) demo_world))\<lparr>Body := ''hi''\<rparr>)
                else Send \<lparr>Name = ''slack''\<rparr>
                   ((fst (Clone (demo_Evt\<lparr>UserId := ''U2''\<rparr>) demo_world))\<lparr>Body := ''hi''\<rparr>)]"
    by auto
  from q1 u have a1: "Pref_User q1 = ''U1''" by simp
  from q2 have a2: "Pref_User q2 = ''U2''" by simp
  from a1 have s1: "\<not> (Pref_Success (store_FindKey_One demo_world q1 ''reply-via-dm'')
                   \<and> Pref_Value (store_FindKey_One demo_world q1 ''reply-via-dm'') = ''true'')"
    by (simp add: demo_world_def)
  from a2 have s2: "Pref_Success (store_FindKey_One demo_world q2 ''reply-via-dm'')
                   \<and> Pref_Value (store_FindKey_One demo_world q2 ''reply-via-dm'') = ''true''"
    by (simp add: demo_world_def)
  from q1(3) s1 have r1: "new_actions demo_world (snd (Reply demo_Evt ''hi'' demo_world)) =
               [QueryFindKeyOne q1 ''reply-via-dm'',
                Send \<lparr>Name = ''slack''\<rparr> ((fst (Clone demo_Evt demo_world))\<lparr>Body := ''hi''\<rparr>)]"
    by simp
  from q2(2) s2 have r2:
    "new_actions demo_world (snd (Reply (demo_Evt\<lparr>UserId := ''U2''\<rparr>) ''hi'' demo_world)) =
               [QueryFindKeyOne q2 ''reply-via-dm'',
                SendDM \<lparr>Name = ''slack''\<rparr>
                   ((fst (Clone (demo_Evt\<lparr>UserId := ''U2''\<rparr>) demo_world))\<lparr>Body := ''hi''\<rparr>)]"
    by simp
  from q1(2) u a1 r1 a2 r2 show ?thesis by blast
qed

subsection \<open>FindPrefs and InstanceSettings\<close>

text \<open>The loop of \<open>InstanceSettings\<close> in closed form.\<close>

lemma InstanceSettings_loop_eq:
  "InstanceSettings_loop e broker plugin stgs out w =
     (out @ map (\<lambda>stg. store_GetPref w [] broker (RoomId e) plugin (Setting_Key stg) (Setting_Default stg))
              (filter (\<lambda>stg. Setting_Room stg = [] \<or> Setting_Room stg = RoomId e) stgs),
      w\<lparr>trace := trace w @
           map (\<lambda>stg. QueryGetPref [] broker (RoomId e) plugin (Setting_Key stg) (Setting_Default stg))
              (filter (\<lambda>stg. Setting_Room stg = [] \<or> Setting_Room stg = RoomId e) stgs)\<rparr>)"
proof (induction stgs arbitrary: out w)
  case Nil
  show ?case by simp
next
  case (Cons stg stgs)
  show ?case by (simp add: Cons.IH emit_def)
qed

text \<open>
  Claim C10, as stated, fails in its last part: the rows \<open>InstanceSettings\<close> returns are
  not scoped to the envelope's user. For an envelope of user \<open>alice\<close> (id \<open>U1\<close>) every
  \<open>GetPref\<close> call is made with the empty string as user.
\<close>

theorem InstanceSettings_not_user_scoped:
  "User demo_Evt = ''alice'' \<and> UserId demo_Evt = ''U1''
   \<and> new_actions demo_world (snd (InstanceSettings demo_Evt demo_world)) =
       [QueryGetPref [] ''slack'' ''C1'' ''uptime'' ''interval'' ''5'',
        QueryGetPref [] ''slack'' ''C1'' ''uptime'' ''color'' ''red'']
   \<and> map Pref_User (projr (fst (InstanceSettings demo_Evt demo_world))) = [[], []]"
  by (simp add: InstanceSettings_def BrokerName_def instance_Plugin_def new_actions_def
        emit_def demo_Evt_def demo_Plugin_def demo_world_def)

text \<open>
  Claim C10, amended. Without instance metadata (and likewise without a broker)
  \<open>FindPrefs\<close> and \<open>InstanceSettings\<close> both panic, having queried nothing. With a broker
  and instance metadata attached, \<open>FindPrefs\<close> returns the rows the store holds for the
  envelope's user, the broker's name, the room id and the plugin's name (any key), and
  \<open>InstanceSettings\<close> returns, in declaration order, one row for every declared setting
  that has no room or the envelope's room id, each resolved by \<open>GetPref\<close> with the empty
  user, the broker's name, the room id, the plugin's name and the setting's key and
  default.
\<close>

theorem pref_accessors:
  "(instance_meta e = None \<or> Broker e = None \<longrightarrow>
      isl (fst (FindPrefs e w)) \<and> new_actions w (snd (FindPrefs e w)) = []
      \<and> isl (fst (InstanceSettings e w)) \<and> new_actions w (snd (InstanceSettings e w)) = [])
   \<and> (Broker e = Some b \<and> instance_meta e = Some i \<longrightarrow>
        fst (FindPrefs e w) =
          Inr (store_FindPrefs w (User e) (Name b) (RoomId e) (Plugin_Name (Instance_Plugin i)) [])
        \<and> new_actions w (snd (FindPrefs e w)) =
          [QueryFindPrefs (User e) (Name b) (RoomId e) (Plugin_Name (Instance_Plugin i)) []]
        \<and> fst (InstanceSettings e w) =
          Inr (map (\<lambda>stg. store_GetPref w [] (Name b) (RoomId e) (Plugin_Name (Instance_Plugin i))
                            (Setting_Key stg) (Setting_Default stg))
                 (filter (\<lambda>stg. Setting_Room stg = [] \<or> Setting_Room stg = RoomId e)
                    (Plugin_Settings (Instance_Plugin i))))
        \<and> new_actions w (snd (InstanceSettings e w)) =
          map (\<lambda>stg. QueryGetPref [] (Name b) (RoomId e) (Plugin_Name (Instance_Plugin i))
                       (Setting_Key stg) (Setting_Default stg))
            (filter (\<lambda>stg. Setting_Room stg = [] \<or> Setting_Room stg = RoomId e)
               (Plugin_Settings (Instance_Plugin i))))"
proof -
  have fail: "instance_meta e = None \<or> Broker e = None \<longrightarrow>
      isl (fst (FindPrefs e w)) \<and> new_actions w (snd (FindPrefs e w)) = []
      \<and> isl (fst (InstanceSettings e w)) \<and> new_actions w (snd (InstanceSettings e w)) = []"
    by (cases "Broker e"; cases "instance_meta e")
       (simp_all add: FindPrefs_def InstanceSettings_def BrokerName_def instance_Plugin_def
          new_actions_def)
  have ok: "Broker e = Some b \<and> instance_meta e = Some i \<longrightarrow>
        fst (FindPrefs e w) =
          Inr (store_FindPrefs w (User e) (Name b) (RoomId e) (Plugin_Name (Instance_Plugin i)) [])
        \<and> new_actions w (snd (FindPrefs e w)) =
          [QueryFindPrefs (User e) (Name b) (RoomId e) (Plugin_Name (Instance_Plugin i)) []]
        \<and> fst (InstanceSettings e w) =
          Inr (map (\<lambda>stg. store_GetPref w [] (Name b) (RoomId e) (Plugin_Name (Instance_Plugin i))
                            (Setting_Key stg) (Setting_Default stg))
                 (filter (\<lambda>stg. Setting_Room stg = [] \<or> Setting_Room stg = RoomId e)
                    (Plugin_Settings (Instance_Plugin i))))
        \<and> new_actions w (snd (InstanceSettings e w)) =
          map (\<lambda>stg. QueryGetPref [] (Name b) (RoomId e) (Plugin_Name (Instance_Plugin i))
                       (Setting_Key stg) (Setting_Default stg))
            (filter (\<lambda>stg. Setting_Room stg = [] \<or> Setting_Room stg = RoomId e)
               (Plugin_Settings (Instance_Plugin i)))"
    by (simp add: FindPrefs_def InstanceSettings_def BrokerName_def instance_Plugin_def
          new_actions_def InstanceSettings_loop_eq emit_def)
  from fail ok show ?thesis by blast
qed

theorem pref_accessors_witness:
  "instance_meta (demo_Evt\<lparr>instance_meta := None\<rparr>) = None
   \<and> isl (fst (FindPrefs (demo_Evt\<lparr>instance_meta := None\<rparr>) demo_world))
   \<and> isl (fst (InstanceSettings (demo_Evt\<lparr>instance_meta := None\<rparr>) demo_world))
   \<and> Broker demo_Evt = Some \<lparr>Name = ''slack''\<rparr>
   \<and> instance_meta demo_Evt = Some \<lparr>Instance_Plugin = demo_Plugin\<rparr>
   \<and> new_actions demo_world (snd (FindPrefs demo_Evt demo_world)) =
       [QueryFindPrefs ''alice'' ''slack'' ''C1'' ''uptime'' []]
   \<and> new_actions demo_world (snd (InstanceSettings demo_Evt demo_world)) =
       [QueryGetPref [] ''slack'' ''C1'' ''uptime'' ''interval'' ''5'',
        QueryGetPref [] ''slack'' ''C1'' ''uptime'' ''color'' ''red'']"
proof -
  have n: "instance_meta (demo_Evt\<lparr>instance_meta := None\<rparr>) = None" by simp
  have a: "Broker demo_Evt = Some \<lparr>Name = ''slack''\<rparr>"
    "instance_meta demo_Evt = Some \<lparr>Instance_Plugin = demo_Plugin\<rparr>"
    by (simp_all add: demo_Evt_def)
  have v: "User demo_Evt = ''alice''" "RoomId demo_Evt = ''C1''"
    by (simp_all add: demo_Evt_def)
  from n pref_accessors [where e = "demo_Evt\<lparr>instance_meta := None\<rparr>" and w = demo_world]
  have p1: "isl (fst (FindPrefs (demo_Evt\<lparr>instance_meta := None\<rparr>) demo_world))
   \<and> isl (fst (InstanceSettings (demo_Evt\<lparr>instance_meta := None\<rparr>) demo_world))"
    by blast
  from a pref_accessors [where e = demo_Evt and w = demo_world
      and b = "\<lparr>Name = ''slack''\<rparr>" and i = "\<lparr>Instance_Plugin = demo_Plugin\<rparr>"]
  have p2: "new_actions demo_world (snd (FindPrefs demo_Evt demo_world)) =
       [QueryFindPrefs ''alice'' ''slack'' ''C1'' ''uptime'' []]
   \<and> new_actions demo_world (snd (InstanceSettings demo_Evt demo_world)) =
       [QueryGetPref [] ''slack'' ''C1'' ''uptime'' ''interval'' ''5'',
        QueryGetPref [] ''slack'' ''C1'' ''uptime'' ''color'' ''red'']"
    by (simp add: v demo_Plugin_def)
  from n a p1 p2 show ?thesis by blast
qed

subsection \<open>The tokenizer\<close>

text \<open>
  What \<open>BodyAsArgv\<close> returns on the inputs the specification lists: the quoted run loses
  its quotes, the empty body has no token, and an unterminated quote is kept as part of
  the run of non-space bytes it begins.
\<close>

lemma BodyAsArgv_examples:
  "BodyAsArgv (e\<lparr>Body := '' a 'b c' d''\<rparr>) = [''a'', ''b c'', ''d'']"
  "BodyAsArgv (e\<lparr>Body := []\<rparr>) = []"
  "BodyAsArgv (e\<lparr>Body := ''a 'b''\<rparr>) = [''a'', [sq] @ ''b'']"
proof -
  have "map strip_quotes (FindAllString (TrimSpace '' a 'b c' d'')) = [''a'', ''b c'', ''d'']"
    by code_simp
  then show "BodyAsArgv (e\<lparr>Body := '' a 'b c' d''\<rparr>) = [''a'', ''b c'', ''d'']"
    by (simp add: BodyAsArgv_def)
  have "map strip_quotes (FindAllString (TrimSpace [])) = []"
    by code_simp
  then show "BodyAsArgv (e\<lparr>Body := []\<rparr>) = []"
    by (simp add: BodyAsArgv_def)
  have "map strip_quotes (FindAllString (TrimSpace ''a 'b'')) = [''a'', [sq] @ ''b'']"
    by code_simp
  then show "BodyAsArgv (e\<lparr>Body := ''a 'b''\<rparr>) = [''a'', [sq] @ ''b'']"
    by (simp add: BodyAsArgv_def)
qed

text \<open>
  The result is empty only when the trimmed body is empty: what \<open>TrimSpace\<close> leaves
  begins with a byte that is not of the class \<open>\s\<close>, and there a match begins.
\<close>

lemma leading_space_TrimLeftSpace: "leading_space (TrimLeftSpace s) = 0"
proof (induction s rule: TrimLeftSpace.induct)
  case (1 s)
  show ?case
  proof (cases "leading_space s = 0")
    case True
    then show ?thesis by (subst TrimLeftSpace.simps) simp
  next
    case False
    with "1.IH" show ?thesis by (subst TrimLeftSpace.simps) simp
  qed
qed

lemma re_space_rune: "re_space c \<Longrightarrow> [c] \<in> set space_runes"
  by (auto simp: re_space_def space_runes_def)

lemma leading_space_0_hd:
  assumes "leading_space t = 0" and "t \<noteq> []"
  shows "\<not> re_space (hd t)"
proof
  assume "re_space (hd t)"
  then have m: "[hd t] \<in> set space_runes" by (rule re_space_rune)
  from assms(2) have "HasPrefix t [hd t]" by (cases t) (simp_all add: HasPrefix_def)
  with m have "[hd t] \<in> set (filter (HasPrefix t) space_runes)" by simp
  then obtain r rs where f: "filter (HasPrefix t) space_runes = r # rs"
    by (cases "filter (HasPrefix t) space_runes") auto
  have "r \<in> set (filter (HasPrefix t) space_runes)" unfolding f by simp
  then have "r \<in> set space_runes" by simp
  then have "r \<noteq> []" by (auto simp: space_runes_def)
  with f assms(1) show False by (simp add: leading_space_def)
qed

lemma TrimRightSpace_take: "\<exists>k. TrimRightSpace t = take k t"
proof (induction t rule: TrimRightSpace.induct)
  case (1 s)
  show ?case
  proof (cases "trailing_space s = 0")
    case True
    then have "TrimRightSpace s = take (length s) s" by (subst TrimRightSpace.simps) simp
    then show ?thesis by blast
  next
    case False
    from "1.IH" [OF False] obtain k where
      "TrimRightSpace (take (length s - trailing_space s) s) = take k (take (length s - trailing_space s) s)"
      by blast
    with False have "TrimRightSpace s = take (min k (length s - trailing_space s)) s"
      by (subst TrimRightSpace.simps) (simp add: min.commute)
    then show ?thesis by blast
  qed
qed

lemma TrimSpace_hd:
  assumes "TrimSpace s \<noteq> []"
  shows "\<not> re_space (hd (TrimSpace s))"
proof -
  obtain k where k: "TrimSpace s = take k (TrimLeftSpace s)"
    using TrimRightSpace_take [of "TrimLeftSpace s"] by (auto simp: TrimSpace_def)
  with assms have ne: "TrimLeftSpace s \<noteq> []" and "k \<noteq> 0" by auto
  then have "hd (TrimSpace s) = hd (TrimLeftSpace s)"
    by (cases "TrimLeftSpace s"; cases k) (simp_all add: k)
  with leading_space_0_hd [OF leading_space_TrimLeftSpace ne] show ?thesis by simp
qed

lemma match_at_nonspace: "\<not> re_space c \<Longrightarrow> match_at (c # cs) \<noteq> None"
  by simp

lemma FindAllString_nonspace: "\<not> re_space c \<Longrightarrow> FindAllString (c # cs) \<noteq> []"
  using match_at_nonspace [of c cs] by (auto split: option.splits)

lemma BodyAsArgv_empty_iff: "BodyAsArgv e = [] \<longleftrightarrow> TrimSpace (Body e) = []"
proof
  assume "TrimSpace (Body e) = []"
  then show "BodyAsArgv e = []" by (simp add: BodyAsArgv_def)
next
  assume a: "BodyAsArgv e = []"
  show "TrimSpace (Body e) = []"
  proof (rule ccontr)
    assume ne: "TrimSpace (Body e) \<noteq> []"
    then have "\<not> re_space (hd (TrimSpace (Body e)))" by (rule TrimSpace_hd)
    with ne have "FindAllString (TrimSpace (Body e)) \<noteq> []"
      by (cases "TrimSpace (Body e)") (simp_all only: list.sel FindAllString_nonspace not_False_eq_True, simp)
    with a show False by (simp add: BodyAsArgv_def)
  qed
qed

text \<open>
  Every match is a quoted run or a run of non-whitespace, and a run that begins with a
  quote character has no second one. The loop returns the body of a quoted run, and a run
  of non-whitespace as it is, except for the run that is one quote character, which it
  turns into the empty string.
\<close>

lemma take_through_quote:
  assumes "q \<in> set cs"
  shows "take (Suc (length (takeWhile (\<lambda>x. x \<noteq> q) cs))) cs = takeWhile (\<lambda>x. x \<noteq> q) cs @ [q]"
proof -
  let ?a = "takeWhile (\<lambda>x. x \<noteq> q) cs" and ?b = "dropWhile (\<lambda>x. x \<noteq> q) cs"
  from assms have ne: "?b \<noteq> []" by (simp add: dropWhile_eq_Nil_conv)
  then have "\<not> (hd ?b \<noteq> q)" by (rule hd_dropWhile)
  with ne obtain bs where b: "?b = q # bs" by (cases ?b) auto
  have "cs = ?a @ ?b" by simp
  with b have "cs = ?a @ q # bs" by simp
  then have "take (Suc (length ?a)) cs = take (Suc (length ?a)) (?a @ q # bs)" by simp
  then show ?thesis by simp
qed

lemma match_at_shape:
  assumes "match_at s = Some n"
  shows "(\<exists>body. quoted_run sq body (take n s))
       \<or> (\<exists>body. quoted_run dq body (take n s))
       \<or> (space_free_run (take n s)
           \<and> (hd (take n s) = sq \<longrightarrow> sq \<notin> set (tl (take n s)))
           \<and> (hd (take n s) = dq \<longrightarrow> dq \<notin> set (tl (take n s))))"
proof (cases s)
  case Nil
  with assms show ?thesis by simp
next
  case (Cons c cs)
  consider (single) "c = sq" "sq \<in> set cs"
    | (double) "\<not> (c = sq \<and> sq \<in> set cs)" "c = dq" "dq \<in> set cs"
    | (run) "\<not> (c = sq \<and> sq \<in> set cs)" "\<not> (c = dq \<and> dq \<in> set cs)"
    by blast
  then show ?thesis
  proof cases
    case single
    with assms Cons have n: "n = Suc (Suc (length (takeWhile (\<lambda>x. x \<noteq> sq) cs)))" by simp
    have "take n s = sq # takeWhile (\<lambda>x. x \<noteq> sq) cs @ [sq]"
      using take_through_quote [OF single(2)] by (simp add: n Cons single(1))
    moreover have "sq \<notin> set (takeWhile (\<lambda>x. x \<noteq> sq) cs)"
      by (auto dest: set_takeWhileD)
    ultimately show ?thesis by (auto simp: quoted_run_def)
  next
    case double
    with assms Cons have n: "n = Suc (Suc (length (takeWhile (\<lambda>x. x \<noteq> dq) cs)))" by auto
    have "take n s = dq # takeWhile (\<lambda>x. x \<noteq> dq) cs @ [dq]"
      using take_through_quote [OF double(3)] by (simp add: n Cons double(2))
    moreover have "dq \<notin> set (takeWhile (\<lambda>x. x \<noteq> dq) cs)"
      by (auto dest: set_takeWhileD)
    ultimately show ?thesis by (auto simp: quoted_run_def)
  next
    case run
    with assms Cons have c: "\<not> re_space c"
      and n: "n = length (takeWhile (\<lambda>x. \<not> re_space x) (c # cs))"
      by (auto split: if_splits)
    have t: "take n s = c # takeWhile (\<lambda>x. \<not> re_space x) cs"
      using c by (simp add: n Cons takeWhile_eq_take [symmetric])
    have "list_all (\<lambda>x. \<not> re_space x) (takeWhile (\<lambda>x. \<not> re_space x) cs)"
      by (auto simp: list_all_iff dest: set_takeWhileD)
    with c t have "space_free_run (take n s)" by (simp add: space_free_run_def)
    moreover have "set (takeWhile (\<lambda>x. \<not> re_space x) cs) \<subseteq> set cs"
      by (auto dest: set_takeWhileD)
    with run t have "(hd (take n s) = sq \<longrightarrow> sq \<notin> set (tl (take n s)))
           \<and> (hd (take n s) = dq \<longrightarrow> dq \<notin> set (tl (take n s)))"
      by auto
    ultimately show ?thesis by blast
  qed
qed

lemma FindAllString_matches:
  "m \<in> set (FindAllString s) \<Longrightarrow>
     (\<exists>body. quoted_run sq body m) \<or> (\<exists>body. quoted_run dq body m)
     \<or> (space_free_run m \<and> (hd m = sq \<longrightarrow> sq \<notin> set (tl m)) \<and> (hd m = dq \<longrightarrow> dq \<notin> set (tl m)))"
proof (induction s rule: FindAllString.induct)
  case 1
  then show ?case by simp
next
  case (2 c cs)
  show ?case
  proof (cases "match_at (c # cs)")
    case None
    with 2 show ?thesis by simp
  next
    case (Some n)
    with "2.prems" have "m = take n (c # cs) \<or> m \<in> set (FindAllString (drop n (c # cs)))"
      by simp
    then show ?thesis
    proof
      assume "m = take n (c # cs)"
      with match_at_shape [OF Some] show ?thesis by simp
    next
      assume "m \<in> set (FindAllString (drop n (c # cs)))"
      with "2.IH"(2) [OF Some] show ?thesis by simp
    qed
  qed
qed

lemma sq_neq_dq: "sq \<noteq> dq"
  by (simp add: sq_def dq_def)

lemma strip_quotes_quoted:
  "quoted_run sq body m \<Longrightarrow> strip_quotes m = body"
  "quoted_run dq body m \<Longrightarrow> strip_quotes m = body"
  using sq_neq_dq
  by (auto simp: quoted_run_def strip_quotes_def HasPrefix_def HasSuffix_def TrimPrefix_def
        TrimSuffix_def)

lemma strip_quotes_run:
  assumes "m \<noteq> []" and "hd m = sq \<longrightarrow> sq \<notin> set (tl m)" and "hd m = dq \<longrightarrow> dq \<notin> set (tl m)"
  shows "strip_quotes m = (if m = [sq] \<or> m = [dq] then [] else m)"
proof -
  from assms(1) obtain c cs where m: "m = c # cs" by (cases m) auto
  have suffix: "HasSuffix (c # cs) [q] \<longleftrightarrow> last (c # cs) = q" for q
    by (induction cs arbitrary: c) (auto simp: HasSuffix_def Suc_diff_le)
  have pre: "HasPrefix (c # cs) [q] \<longleftrightarrow> c = q" for q
    by (auto simp: HasPrefix_def)
  show ?thesis
  proof (cases "cs = []")
    case True
    with m sq_neq_dq show ?thesis
      by (auto simp: strip_quotes_def HasPrefix_def HasSuffix_def TrimPrefix_def TrimSuffix_def)
  next
    case False
    then have l: "last (c # cs) \<in> set cs" by (simp)
    from assms(2,3) m have "c = sq \<longrightarrow> sq \<notin> set cs" "c = dq \<longrightarrow> dq \<notin> set cs" by simp_all
    with l have "\<not> (c = sq \<and> last (c # cs) = sq)" "\<not> (c = dq \<and> last (c # cs) = dq)" by auto
    with False m show ?thesis
      by (simp only: strip_quotes_def pre suffix) auto
  qed
qed

lemma BodyAsArgv_tokens:
  "list_all2
     (\<lambda>m tok. (\<exists>body. quoted_run sq body m \<and> tok = body)
              \<or> (\<exists>body. quoted_run dq body m \<and> tok = body)
              \<or> (space_free_run m \<and> tok = (if m = [sq] \<or> m = [dq] then [] else m)))
     (FindAllString (TrimSpace (Body e))) (BodyAsArgv e)"
proof -
  have "(\<exists>body. quoted_run sq body m \<and> strip_quotes m = body)
              \<or> (\<exists>body. quoted_run dq body m \<and> strip_quotes m = body)
              \<or> (space_free_run m \<and> strip_quotes m = (if m = [sq] \<or> m = [dq] then [] else m))"
    if "m \<in> set (FindAllString (TrimSpace (Body e)))" for m
    using FindAllString_matches [OF that] strip_quotes_quoted [of _ m] strip_quotes_run [of m]
    by (auto simp: space_free_run_def)
  then show ?thesis
    by (simp add: BodyAsArgv_def list_all2_map2 list_all2_same)
qed

lemma tokens_lone_quote:
  "FindAllString (TrimSpace [sq]) = [[sq]]"
  "map strip_quotes (FindAllString (TrimSpace [sq])) = [[]]"
  "map strip_quotes (FindAllString (TrimSpace (''say '' @ [sq]))) = [''say'', []]"
  by code_simp+

text \<open>
  Claim C7. Every token is said to be a maximal run of non-whitespace characters or the
  contents of a quoted run. For the body that is one single-quote character the
  expression matches that character as a run of non-space bytes (there is no quoted run),
  and the loop that removes outer quotes then takes the one character for both an opening
  and a closing quote: the token is the empty string. The same happens to a quote that
  stands alone at the end of \<open>say '\<close>.
\<close>

theorem BodyAsArgv_lone_quote:
  "BodyAsArgv (e\<lparr>Body := [sq]\<rparr>) = [[]]
   \<and> FindAllString (TrimSpace (Body (e\<lparr>Body := [sq]\<rparr>))) = [[sq]]
   \<and> BodyAsArgv (e\<lparr>Body := ''say '' @ [sq]\<rparr>) = [''say'', []]"
  using tokens_lone_quote by (simp add: BodyAsArgv_def)

text \<open>A body that begins with the command marker has at least one token.\<close>

lemma HasPrefix_slash: "HasPrefix s ''/'' \<longleftrightarrow> (\<exists>cs. s = CHR ''/'' # cs)"
  by (cases s) (auto simp: HasPrefix_def)

lemma leading_space_slash: "leading_space (CHR ''/'' # cs) = 0"
  by (simp add: leading_space_def space_runes_def HasPrefix_def)

lemma TrimLeftSpace_slash: "TrimLeftSpace (CHR ''/'' # cs) = CHR ''/'' # cs"
  by (subst TrimLeftSpace.simps) (simp add: leading_space_slash)

lemma slash_not_space_rune: "CHR ''/'' # cs \<notin> set space_runes"
  by (simp add: space_runes_def)

lemma trailing_space_rune:
  assumes "trailing_space s \<noteq> 0"
  shows "\<exists>r \<in> set space_runes. HasSuffix s r \<and> trailing_space s = length r"
proof -
  from assms obtain r rs where f: "filter (HasSuffix s) space_runes = r # rs"
    by (auto simp: trailing_space_def split: list.splits)
  have "r \<in> set (filter (HasSuffix s) space_runes)" unfolding f by simp
  then have "r \<in> set space_runes \<and> HasSuffix s r" by simp
  moreover have "trailing_space s = length r" by (simp add: trailing_space_def f)
  ultimately show ?thesis by blast
qed

lemma trailing_space_slash: "trailing_space (CHR ''/'' # cs) \<le> length cs"
proof (cases "trailing_space (CHR ''/'' # cs) = 0")
  case True
  then show ?thesis by simp
next
  case False
  then obtain r where r: "r \<in> set space_runes" "HasSuffix (CHR ''/'' # cs) r"
    "trailing_space (CHR ''/'' # cs) = length r"
    using trailing_space_rune by blast
  have "length r \<noteq> Suc (length cs)"
  proof
    assume "length r = Suc (length cs)"
    with r(2) have "r = CHR ''/'' # cs" by (simp add: HasSuffix_def)
    with r(1) slash_not_space_rune show False by simp
  qed
  moreover from r(2) have "length r \<le> Suc (length cs)" by (simp add: HasSuffix_def)
  ultimately show ?thesis using r(3) by simp
qed

lemma TrimRightSpace_slash: "\<exists>cs'. TrimRightSpace (CHR ''/'' # cs) = CHR ''/'' # cs'"
proof (induction "CHR ''/'' # cs" arbitrary: cs rule: TrimRightSpace.induct)
  case 1
  show ?case
  proof (cases "trailing_space (CHR ''/'' # cs) = 0")
    case True
    then show ?thesis by (subst TrimRightSpace.simps) simp
  next
    case False
    let ?k = "trailing_space (CHR ''/'' # cs)"
    have le: "?k \<le> length cs" by (rule trailing_space_slash)
    then have t: "take (length (CHR ''/'' # cs) - ?k) (CHR ''/'' # cs)
                 = CHR ''/'' # take (length cs - ?k) cs"
      by (simp add: Suc_diff_le)
    from "1.hyps" [OF False t] obtain cs' where
      "TrimRightSpace (CHR ''/'' # take (length cs - ?k) cs) = CHR ''/'' # cs'" by blast
    with False t show ?thesis by (subst TrimRightSpace.simps) simp
  qed
qed

lemma FindAllString_slash: "FindAllString (CHR ''/'' # cs) \<noteq> []"
  by (simp add: sq_def dq_def re_space_def)

lemma BodyAsArgv_slash:
  assumes "HasPrefix (Body e) ''/''"
  shows "BodyAsArgv e \<noteq> []"
proof -
  from assms obtain cs where "Body e = CHR ''/'' # cs" by (auto simp: HasPrefix_slash)
  moreover obtain cs' where "TrimRightSpace (CHR ''/'' # cs) = CHR ''/'' # cs'"
    using TrimRightSpace_slash by blast
  ultimately have "FindAllString (TrimSpace (Body e)) = FindAllString (CHR ''/'' # cs')"
    by (simp only: TrimSpace_def TrimLeftSpace_slash)
  with FindAllString_slash [of cs'] show ?thesis
    by (simp only: BodyAsArgv_def map_is_Nil_conv) simp
qed

subsection \<open>The console broker\<close>

lemma Body_console_Evt: "Body (console_Evt cb input now) = input"
  by (simp add: console_Evt_def)

lemma Reply_console_Evt:
  "\<exists>q out. Pref_User q = cb_User cb \<and> Pref_Room q = cb_Room cb
       \<and> Pref_Broker q = cb_Room cb \<and> Pref_Plugin q = []
       \<and> Body out = msg
       \<and> fst (Reply (console_Evt cb input now) msg w1) = Inr ()
       \<and> trace (snd (Reply (console_Evt cb input now) msg w1)) = trace w1 @
           [QueryFindKeyOne q ''reply-via-dm'',
            if Pref_Success (store_FindKey_One w1 q ''reply-via-dm'')
               \<and> Pref_Value (store_FindKey_One w1 q ''reply-via-dm'') = ''true''
            then SendDM (as_Broker cb) out else Send (as_Broker cb) out]"
proof -
  let ?q = "\<lparr> Pref_User = cb_User cb, Pref_Room = cb_Room cb, Pref_Broker = cb_Room cb,
              Pref_Plugin = [], Pref_Key = [], Pref_Value = [], Pref_Default = [],
              Pref_Success = False \<rparr>"
  let ?out = "(fst (Clone (console_Evt cb input now) w1))\<lparr>Body := msg\<rparr>"
  have "Pref_User ?q = cb_User cb \<and> Pref_Room ?q = cb_Room cb
       \<and> Pref_Broker ?q = cb_Room cb \<and> Pref_Plugin ?q = []
       \<and> Body ?out = msg
       \<and> fst (Reply (console_Evt cb input now) msg w1) = Inr ()
       \<and> trace (snd (Reply (console_Evt cb input now) msg w1)) = trace w1 @
           [QueryFindKeyOne ?q ''reply-via-dm'',
            if Pref_Success (store_FindKey_One w1 ?q ''reply-via-dm'')
               \<and> Pref_Value (store_FindKey_One w1 ?q ''reply-via-dm'') = ''true''
            then SendDM (as_Broker cb) ?out else Send (as_Broker cb) ?out]"
    by (simp add: run_defs console_Evt_def as_Broker_def console_Name_def)
  then show ?thesis by blast
qed

lemma tokens_reaction_a_b:
  "map strip_quotes (FindAllString (TrimSpace ''/reaction a b'')) = [''/reaction'', ''a'', ''b'']"
  by code_simp

lemma tokens_help:
  "map strip_quotes (FindAllString (TrimSpace ''/help me'')) = [''/help'', ''me'']"
  by code_simp

lemma tokens_thumbsup:
  "map strip_quotes (FindAllString (TrimSpace ''/reaction :thumbsup:'')) = [''/reaction'', '':thumbsup:'']"
  by code_simp

text \<open>
  Claim C6. A line that begins with \<open>/\<close> has a first token. If that token is \<open>/reaction\<close>
  and the number of further tokens is not one, the turn sends nothing on \<open>out\<close> and
  \<open>Reply\<close> delivers exactly one envelope to the console broker, its body the usage
  message (after the one lookup of \<open>reply-via-dm\<close> that routes it). If the first token is
  anything else, the turn sends nothing on \<open>out\<close> and does nothing at all: no reply, no
  lookup.
\<close>

theorem Stream_step_command:
  assumes "HasPrefix input ''/''"
  shows "\<exists>arg0 rest. BodyAsArgv (console_Evt cb input (clock w (ticks w))) = arg0 # rest
     \<and> (arg0 = ''/reaction'' \<and> length rest \<noteq> 1 \<longrightarrow>
          fst (Stream_step cb input w) = Inr ([], console_Evt cb input (clock w (ticks w)))
          \<and> (\<exists>q out. Pref_User q = cb_User cb \<and> Pref_Room q = cb_Room cb
                \<and> Pref_Broker q = cb_Room cb \<and> Pref_Plugin q = []
                \<and> Body out = ''/reaction requires exactly one argument!''
                \<and> new_actions w (snd (Stream_step cb input w)) =
                    [QueryFindKeyOne q ''reply-via-dm'',
                     if Pref_Success (store_FindKey_One w q ''reply-via-dm'')
                        \<and> Pref_Value (store_FindKey_One w q ''reply-via-dm'') = ''true''
                     then SendDM (as_Broker cb) out else Send (as_Broker cb) out]))
     \<and> (arg0 \<noteq> ''/reaction'' \<longrightarrow>
          fst (Stream_step cb input w) = Inr ([], console_Evt cb input (clock w (ticks w)))
          \<and> new_actions w (snd (Stream_step cb input w)) = [])"
proof -
  let ?e = "console_Evt cb input (clock w (ticks w))"
  let ?w1 = "w\<lparr>ticks := Suc (ticks w)\<rparr>"
  let ?usage = "''/reaction requires exactly one argument!''"
  from assms have pre: "HasPrefix (Body ?e) ''/''" by (simp add: Body_console_Evt)
  then have "BodyAsArgv ?e \<noteq> []" by (rule BodyAsArgv_slash)
  then obtain arg0 rest where args: "BodyAsArgv ?e = arg0 # rest"
    by (cases "BodyAsArgv ?e") auto
  have other: "arg0 \<noteq> ''/reaction'' \<longrightarrow>
          fst (Stream_step cb input w) = Inr ([], ?e)
          \<and> new_actions w (snd (Stream_step cb input w)) = []"
    using pre args by (simp add: Stream_step_def time_Now_def new_actions_def)
  have usage: "arg0 = ''/reaction'' \<and> length rest \<noteq> 1 \<longrightarrow>
          fst (Stream_step cb input w) = Inr ([], ?e)
          \<and> (\<exists>q out. Pref_User q = cb_User cb \<and> Pref_Room q = cb_Room cb
                \<and> Pref_Broker q = cb_Room cb \<and> Pref_Plugin q = []
                \<and> Body out = ?usage
                \<and> new_actions w (snd (Stream_step cb input w)) =
                    [QueryFindKeyOne q ''reply-via-dm'',
                     if Pref_Success (store_FindKey_One w q ''reply-via-dm'')
                        \<and> Pref_Value (store_FindKey_One w q ''reply-via-dm'') = ''true''
                     then SendDM (as_Broker cb) out else Send (as_Broker cb) out])"
  proof
    assume a: "arg0 = ''/reaction'' \<and> length rest \<noteq> 1"
    then have step: "Stream_step cb input w =
        and_then (Reply ?e ?usage) (\<lambda>_. done_with ([], ?e)) ?w1"
      using pre args by (simp add: Stream_step_def time_Now_def Let_def)
    from Reply_console_Evt [of cb ?usage input "clock w (ticks w)" ?w1]
    obtain q out where r: "Pref_User q = cb_User cb" "Pref_Room q = cb_Room cb"
      "Pref_Broker q = cb_Room cb" "Pref_Plugin q = []" "Body out = ?usage"
      "fst (Reply ?e ?usage ?w1) = Inr ()"
      "trace (snd (Reply ?e ?usage ?w1)) = trace ?w1 @
           [QueryFindKeyOne q ''reply-via-dm'',
            if Pref_Success (store_FindKey_One ?w1 q ''reply-via-dm'')
               \<and> Pref_Value (store_FindKey_One ?w1 q ''reply-via-dm'') = ''true''
            then SendDM (as_Broker cb) out else Send (as_Broker cb) out]"
      by blast
    obtain u w2 where rw: "Reply ?e ?usage ?w1 = (u, w2)" by (cases "Reply ?e ?usage ?w1")
    with r(6) have u: "u = Inr ()" by simp
    from rw u step have s: "Stream_step cb input w = (Inr ([], ?e), w2)"
      by (simp add: and_then_def done_with_def)
    from rw r(7) have t: "new_actions w w2 =
           [QueryFindKeyOne q ''reply-via-dm'',
            if Pref_Success (store_FindKey_One w q ''reply-via-dm'')
               \<and> Pref_Value (store_FindKey_One w q ''reply-via-dm'') = ''true''
            then SendDM (as_Broker cb) out else Send (as_Broker cb) out]"
      by (simp add: new_actions_def)
    from s t r(1-5) show "fst (Stream_step cb input w) = Inr ([], ?e)
          \<and> (\<exists>q out. Pref_User q = cb_User cb \<and> Pref_Room q = cb_Room cb
                \<and> Pref_Broker q = cb_Room cb \<and> Pref_Plugin q = []
                \<and> Body out = ?usage
                \<and> new_actions w (snd (Stream_step cb input w)) =
                    [QueryFindKeyOne q ''reply-via-dm'',
                     if Pref_Success (store_FindKey_One w q ''reply-via-dm'')
                        \<and> Pref_Value (store_FindKey_One w q ''reply-via-dm'') = ''true''
                     then SendDM (as_Broker cb) out else Send (as_Broker cb) out])"
      by auto
  qed
  from args usage other show ?thesis by blast
qed

theorem Stream_step_command_witness:
  "HasPrefix ''/reaction a b'' ''/'' \<and> HasPrefix ''/help me'' ''/''
   \<and> BodyAsArgv (console_Evt demo_console ''/reaction a b'' 1000) = [''/reaction'', ''a'', ''b'']
   \<and> fst (Stream_step demo_console ''/reaction a b'' demo_world)
        = Inr ([], console_Evt demo_console ''/reaction a b'' 1000)
   \<and> (\<exists>q out. Body out = ''/reaction requires exactly one argument!''
         \<and> new_actions demo_world (snd (Stream_step demo_console ''/reaction a b'' demo_world)) =
             [QueryFindKeyOne q ''reply-via-dm'', Send (as_Broker demo_console) out])
   \<and> BodyAsArgv (console_Evt demo_console ''/help me'' 1000) = [''/help'', ''me'']
   \<and> fst (Stream_step demo_console ''/help me'' demo_world)
        = Inr ([], console_Evt demo_console ''/help me'' 1000)
   \<and> new_actions demo_world (snd (Stream_step demo_console ''/help me'' demo_world)) = []"
proof -
  have c: "clock demo_world (ticks demo_world) = 1000" by (simp add: demo_world_def)
  have h1: "HasPrefix ''/reaction a b'' ''/''" by (simp add: HasPrefix_def)
  have h2: "HasPrefix ''/help me'' ''/''" by (simp add: HasPrefix_def)
  have a1: "BodyAsArgv (console_Evt demo_console ''/reaction a b'' 1000) = [''/reaction'', ''a'', ''b'']"
    by (simp only: BodyAsArgv_def Body_console_Evt tokens_reaction_a_b)
  have a2: "BodyAsArgv (console_Evt demo_console ''/help me'' 1000) = [''/help'', ''me'']"
    by (simp only: BodyAsArgv_def Body_console_Evt tokens_help)
  have st: "\<And>q. Pref_User q = cb_User demo_console \<Longrightarrow>
      \<not> (Pref_Success (store_FindKey_One demo_world q ''reply-via-dm'')
                        \<and> Pref_Value (store_FindKey_One demo_world q ''reply-via-dm'') = ''true'')"
    by (simp add: demo_world_def demo_console_def)
  from Stream_step_command [OF h1, of demo_console demo_world] a1 c st
  have r1: "fst (Stream_step demo_console ''/reaction a b'' demo_world)
        = Inr ([], console_Evt demo_console ''/reaction a b'' 1000)
   \<and> (\<exists>q out. Body out = ''/reaction requires exactly one argument!''
         \<and> new_actions demo_world (snd (Stream_step demo_console ''/reaction a b'' demo_world)) =
             [QueryFindKeyOne q ''reply-via-dm'', Send (as_Broker demo_console) out])"
    by auto
  from Stream_step_command [OF h2, of demo_console demo_world] a2 c
  have r2: "fst (Stream_step demo_console ''/help me'' demo_world)
        = Inr ([], console_Evt demo_console ''/help me'' 1000)
   \<and> new_actions demo_world (snd (Stream_step demo_console ''/help me'' demo_world)) = []"
    by auto
  from h1 h2 a1 a2 r1 r2 show ?thesis by blast
qed

text \<open>
  No line that begins with the command marker is ever sent on \<open>out\<close>, whatever its
  tokens are: the send stands in the other branch.
\<close>

lemma Stream_step_marker_sends_nothing:
  assumes "HasPrefix input ''/''"
  shows "\<exists>e'. fst (Stream_step cb input w) = Inr ([], e')"
proof -
  let ?e = "console_Evt cb input (clock w (ticks w))"
  let ?w1 = "w\<lparr>ticks := Suc (ticks w)\<rparr>"
  let ?usage = "''/reaction requires exactly one argument!''"
  from assms have pre: "HasPrefix (Body ?e) ''/''" by (simp add: Body_console_Evt)
  then have "BodyAsArgv ?e \<noteq> []" by (rule BodyAsArgv_slash)
  then obtain arg0 rest where args: "BodyAsArgv ?e = arg0 # rest"
    by (cases "BodyAsArgv ?e") auto
  show ?thesis
  proof (cases "arg0 = ''/reaction'' \<and> length rest \<noteq> 1")
    case False
    with pre args show ?thesis
      by (auto simp: Stream_step_def time_Now_def Let_def)
  next
    case True
    then have step: "Stream_step cb input w =
        and_then (Reply ?e ?usage) (\<lambda>_. done_with ([], ?e)) ?w1"
      using pre args by (simp add: Stream_step_def time_Now_def Let_def)
    from Reply_console_Evt [of cb ?usage input "clock w (ticks w)" ?w1]
    have "fst (Reply ?e ?usage ?w1) = Inr ()" by blast
    with step have "fst (Stream_step cb input w) = Inr ([], ?e)"
      by (cases "Reply ?e ?usage ?w1") (simp add: and_then_def done_with_def)
    then show ?thesis by blast
  qed
qed

text \<open>
  Claim C1. For the line \<open>/reaction :thumbsup:\<close> the turn sets the body of the event to
  \<open>:thumbsup:\<close> and its original payload to a \<open>SlashReaction\<close>, but the send on \<open>out\<close>
  stands in the \<open>else\<close> branch of the test for the command marker: no event is forwarded,
  and nothing else happens.
\<close>

theorem Stream_step_reaction_not_forwarded:
  "fst (Stream_step cb ''/reaction :thumbsup:'' w) =
     Inr ([], (console_Evt cb ''/reaction :thumbsup:'' (clock w (ticks w)))
               \<lparr>Body := '':thumbsup:'', Original := Some (SlashReaction_ptr '':thumbsup:'')\<rparr>)
   \<and> new_actions w (snd (Stream_step cb ''/reaction :thumbsup:'' w)) = []"
proof -
  have a: "BodyAsArgv (console_Evt cb ''/reaction :thumbsup:'' (clock w (ticks w)))
             = [''/reaction'', '':thumbsup:'']"
    by (simp only: BodyAsArgv_def Body_console_Evt tokens_thumbsup)
  have p: "HasPrefix (Body (console_Evt cb ''/reaction :thumbsup:'' (clock w (ticks w)))) ''/''"
    by (simp add: Body_console_Evt HasPrefix_def)
  from a p show ?thesis
    by (simp add: Stream_step_def time_Now_def new_actions_def)
qed

end
